theory Spec2Isabelle
  imports Complex_Main
begin


section \<open>The float64 values of the program\<close>

text \<open>
  The program computes with Go's \<open>float64\<close>. A value is modelled as a real number or one
  of the three special values of IEEE 754. A finite result is computed exactly, unless
  it overflows: the rounding of a result to 53 bits and underflow are not part of the
  model, so that what is proved below of the value of a coordinate holds of a run of the
  program up to its rounding errors only; what is proved of the structure of the
  results, of the special values and of the comparisons with \<open>NaN\<close> does not depend on
  them. The special values follow IEEE 754: a result too large in magnitude is an
  infinity, an invalid operation (\<open>0/0\<close>, \<open>\<infinity> - \<infinity>\<close>, \<open>0 * \<infinity>\<close>, the square root of a
  negative number) gives \<open>NaN\<close>, \<open>NaN\<close> propagates through every operation, and every
  ordered comparison with \<open>NaN\<close> is false. Zero is unsigned and divides as \<open>+0\<close>; the
  one divisor of the program is a square root of a sum of squares, which is never \<open>-0\<close>.
\<close>

datatype float64 = Fin real | PInf | NInf | NaN

text \<open>
  Overflow: a result whose magnitude reaches \<open>2^1024 - 2^970\<close>, half a unit in the last
  place above the largest \<open>float64\<close>, is the infinity of its sign.
\<close>

definition float_huge :: real where
  "float_huge = 2 ^ 1024 - 2 ^ 970"

definition overflow :: "real \<Rightarrow> float64" where
  "overflow x = (if float_huge \<le> x then PInf else if x \<le> - float_huge then NInf else Fin x)"

fun f_neg :: "float64 \<Rightarrow> float64" where
  "f_neg (Fin a) = Fin (- a)"
| "f_neg PInf = NInf"
| "f_neg NInf = PInf"
| "f_neg NaN = NaN"

fun f_add :: "float64 \<Rightarrow> float64 \<Rightarrow> float64" where
  "f_add (Fin a) (Fin b) = overflow (a + b)"
| "f_add NaN _ = NaN"
| "f_add _ NaN = NaN"
| "f_add PInf NInf = NaN"
| "f_add NInf PInf = NaN"
| "f_add PInf _ = PInf"
| "f_add _ PInf = PInf"
| "f_add NInf _ = NInf"
| "f_add _ NInf = NInf"

text \<open>The sign of an infinite product or quotient: \<open>True\<close> is positive.\<close>

definition f_inf :: "bool \<Rightarrow> float64" where
  "f_inf positive = (if positive then PInf else NInf)"

fun f_mul :: "float64 \<Rightarrow> float64 \<Rightarrow> float64" where
  "f_mul (Fin a) (Fin b) = overflow (a * b)"
| "f_mul NaN _ = NaN"
| "f_mul _ NaN = NaN"
| "f_mul (Fin a) PInf = (if a = 0 then NaN else f_inf (0 < a))"
| "f_mul (Fin a) NInf = (if a = 0 then NaN else f_inf (a < 0))"
| "f_mul PInf (Fin b) = (if b = 0 then NaN else f_inf (0 < b))"
| "f_mul NInf (Fin b) = (if b = 0 then NaN else f_inf (b < 0))"
| "f_mul PInf PInf = PInf"
| "f_mul PInf NInf = NInf"
| "f_mul NInf PInf = NInf"
| "f_mul NInf NInf = PInf"

fun f_div :: "float64 \<Rightarrow> float64 \<Rightarrow> float64" where
  "f_div (Fin a) (Fin b) =
     (if b = 0 then (if a = 0 then NaN else f_inf (0 < a)) else overflow (a / b))"
| "f_div NaN _ = NaN"
| "f_div _ NaN = NaN"
| "f_div (Fin a) PInf = Fin 0"
| "f_div (Fin a) NInf = Fin 0"
| "f_div PInf (Fin b) = f_inf (0 \<le> b)"
| "f_div NInf (Fin b) = f_inf (b < 0)"
| "f_div PInf PInf = NaN"
| "f_div PInf NInf = NaN"
| "f_div NInf PInf = NaN"
| "f_div NInf NInf = NaN"

fun f_le :: "float64 \<Rightarrow> float64 \<Rightarrow> bool" where
  "f_le (Fin a) (Fin b) = (a \<le> b)"
| "f_le NaN _ = False"
| "f_le _ NaN = False"
| "f_le NInf _ = True"
| "f_le _ PInf = True"
| "f_le PInf _ = False"
| "f_le _ NInf = False"

fun f_lt :: "float64 \<Rightarrow> float64 \<Rightarrow> bool" where
  "f_lt (Fin a) (Fin b) = (a < b)"
| "f_lt NaN _ = False"
| "f_lt _ NaN = False"
| "f_lt PInf _ = False"
| "f_lt _ NInf = False"
| "f_lt NInf _ = True"
| "f_lt _ PInf = True"

text \<open>
  The operators of Go on \<open>float64\<close>, so that the program below is written as in the
  source: \<open>a - b\<close> is \<open>a + (-b)\<close>, and \<open>a \<ge> b\<close> is \<open>b \<le> a\<close>.
\<close>

instantiation float64 :: "{uminus, plus, minus, times, inverse, ord}"
begin

definition uminus_float64 :: "float64 \<Rightarrow> float64" where
  "uminus_float64 a = f_neg a"

definition plus_float64 :: "float64 \<Rightarrow> float64 \<Rightarrow> float64" where
  "plus_float64 a b = f_add a b"

definition minus_float64 :: "float64 \<Rightarrow> float64 \<Rightarrow> float64" where
  "minus_float64 a b = f_add a (f_neg b)"

definition times_float64 :: "float64 \<Rightarrow> float64 \<Rightarrow> float64" where
  "times_float64 a b = f_mul a b"

definition divide_float64 :: "float64 \<Rightarrow> float64 \<Rightarrow> float64" where
  "divide_float64 a b = f_div a b"

definition inverse_float64 :: "float64 \<Rightarrow> float64" where
  "inverse_float64 a = f_div (Fin 1) a"

definition less_eq_float64 :: "float64 \<Rightarrow> float64 \<Rightarrow> bool" where
  "less_eq_float64 a b = f_le a b"

definition less_float64 :: "float64 \<Rightarrow> float64 \<Rightarrow> bool" where
  "less_float64 a b = f_lt a b"

instance ..

end

text \<open>
  \<open>math.Sqrt\<close>, \<open>math.Sin\<close>, \<open>math.Cos\<close> and the conversion \<open>float64(n)\<close> of an int: on
  a finite number the square root, the sine and the cosine of the real numbers, without
  rounding. The int of Go has 64 bits: of the integers of the model, those from \<open>-2^63\<close>
  to \<open>2^63 - 1\<close> are values of the program.
\<close>

fun math_Sqrt :: "float64 \<Rightarrow> float64" where
  "math_Sqrt (Fin a) = (if a < 0 then NaN else Fin (sqrt a))"
| "math_Sqrt PInf = PInf"
| "math_Sqrt NInf = NaN"
| "math_Sqrt NaN = NaN"

fun math_Sin :: "float64 \<Rightarrow> float64" where
  "math_Sin (Fin a) = Fin (sin a)"
| "math_Sin _ = NaN"

fun math_Cos :: "float64 \<Rightarrow> float64" where
  "math_Cos (Fin a) = Fin (cos a)"
| "math_Cos _ = NaN"

definition float64_of_int :: "int \<Rightarrow> float64" where
  "float64_of_int n = overflow (real_of_int n)"

definition math_Pi :: float64 where
  "math_Pi = Fin pi"

fun is_NaN :: "float64 \<Rightarrow> bool" where
  "is_NaN NaN = True"
| "is_NaN _ = False"

text \<open>A finite value and its real number; the special values have no real number.\<close>

fun is_Fin :: "float64 \<Rightarrow> bool" where
  "is_Fin (Fin a) = True"
| "is_Fin _ = False"

fun val :: "float64 \<Rightarrow> real" where
  "val (Fin a) = a"
| "val _ = 0"


section \<open>Points, facets, quads and boxes\<close>

text \<open>
  \<open>Point\<close> is the struct of three coordinates; \<open>Facet\<close>, \<open>Quad\<close> and \<open>Box\<close> are the
  arrays \<open>[3]Point\<close>, \<open>[4]Point\<close> and \<open>[2]Quad\<close>, whose elements the program reads at
  constant indices only. The types take the type of a coordinate as a parameter: what
  is proved of the functions that only move points around holds for every coordinate
  type. The fields \<open>x\<close>, \<open>y\<close>, \<open>z\<close> of a point are the selectors \<open>px\<close>, \<open>py\<close>, \<open>pz\<close>, and
  the elements \<open>f[i]\<close>, \<open>q[i]\<close>, \<open>b[i]\<close> of the arrays are the selectors \<open>f0\<close> to \<open>f2\<close>,
  \<open>q0\<close> to \<open>q3\<close>, \<open>b0\<close> and \<open>b1\<close>. An array that a function returns is a list, in index
  order.
\<close>

datatype 'a Point = Point (px: 'a) (py: 'a) (pz: 'a)

datatype 'a Facet = Facet (f0: "'a Point") (f1: "'a Point") (f2: "'a Point")

datatype 'a Quad = Quad (q0: "'a Point") (q1: "'a Point") (q2: "'a Point") (q3: "'a Point")

datatype 'a Box = Box (b0: "'a Quad") (b1: "'a Quad")

definition Point_sub :: "float64 Point \<Rightarrow> float64 Point \<Rightarrow> float64 Point" where
  "Point_sub p q = Point (px p - px q) (py p - py q) (pz p - pz q)"

definition Facet_Normal :: "float64 Facet \<Rightarrow> float64 Point" where
  "Facet_Normal f =
     (let u = Point_sub (f1 f) (f0 f);
          v = Point_sub (f2 f) (f0 f);
          nx = py u * pz v - pz u * py v;
          ny = pz u * px v - px u * pz v;
          nz = px u * py v - py u * px v;
          norm = math_Sqrt (nx * nx + ny * ny + nz * nz)
      in Point (nx / norm) (ny / norm) (nz / norm))"

definition Quad_Facets :: "'a Quad \<Rightarrow> 'a Facet list" where
  "Quad_Facets q = [Facet (q0 q) (q1 q) (q2 q), Facet (q2 q) (q3 q) (q0 q)]"

definition NewQuad ::
  "'a \<Rightarrow> 'a \<Rightarrow> 'a \<Rightarrow> 'a \<Rightarrow> 'a \<Rightarrow> 'a \<Rightarrow> 'a \<Rightarrow> 'a \<Rightarrow> 'a \<Rightarrow> 'a \<Rightarrow> 'a \<Rightarrow> 'a \<Rightarrow> 'a Quad" where
  "NewQuad c0 c1 c2 c3 c4 c5 c6 c7 c8 c9 c10 c11 =
     (let p0 = Point c0 c1 c2;
          p1 = Point c3 c4 c5;
          p2 = Point c6 c7 c8;
          p3 = Point c9 c10 c11
      in Quad p0 p1 p2 p3)"

text \<open>\<open>log.Fatal\<close> prints its message and ends the process: the error value of the model.\<close>

datatype error = Fatal string

definition NewBox :: "float64 Quad \<Rightarrow> float64 Quad \<Rightarrow> error + float64 Box" where
  "NewBox qa qb =
     (if pz (Facet_Normal (Quad_Facets qa ! 0)) \<ge> Fin 0 then Inl (Fatal ''bad bottom normal'')
      else if pz (Facet_Normal (Quad_Facets qb ! 0)) \<le> Fin 0 then Inl (Fatal ''bad top normal'')
      else Inr (Box qa qb))"

text \<open>
  \<open>Box.Facets\<close> names element 0 of the box \<open>top\<close> and element 1 \<open>bot\<close>; the model keeps
  the names of the source.
\<close>

definition Box_Facets :: "'a Box \<Rightarrow> 'a Facet list" where
  "Box_Facets b =
     (let top = b0 b;
          bot = b1 b
      in Quad_Facets top
       @ Quad_Facets bot
       @ Quad_Facets (Quad (q0 bot) (q3 bot) (q1 top) (q0 top))
       @ Quad_Facets (Quad (q3 bot) (q2 bot) (q2 top) (q1 top))
       @ Quad_Facets (Quad (q2 bot) (q1 bot) (q3 top) (q2 top))
       @ Quad_Facets (Quad (q1 bot) (q0 bot) (q0 top) (q3 top)))"


text \<open>Element \<open>i\<close> of a quad, for \<open>i\<close> from 0 to 3.\<close>

definition Quad_at :: "'a Quad \<Rightarrow> nat \<Rightarrow> 'a Point" where
  "Quad_at q i = [q0 q, q1 q, q2 q, q3 q] ! i"

text \<open>
  The side quads as the specification words them: for a bottom quad, a top quad and
  \<open>i\<close> from 0 to 3, the quad \<open>(bottom[i], bottom[i+1 mod 4], top[i+1 mod 4], top[i mod 4])\<close>;
  and the twelve facets the specification describes with them. These two definitions
  follow the specification, not the source; they are compared with \<open>Box_Facets\<close> below.
\<close>

definition spec_side_quad :: "'a Quad \<Rightarrow> 'a Quad \<Rightarrow> nat \<Rightarrow> 'a Quad" where
  "spec_side_quad bottom_quad top_quad i =
     Quad (Quad_at bottom_quad i) (Quad_at bottom_quad ((i + 1) mod 4))
          (Quad_at top_quad ((i + 1) mod 4)) (Quad_at top_quad (i mod 4))"

definition spec_Box_Facets :: "'a Quad \<Rightarrow> 'a Quad \<Rightarrow> 'a Facet list" where
  "spec_Box_Facets bottom_quad top_quad =
     Quad_Facets top_quad @ Quad_Facets bottom_quad
     @ concat (map (\<lambda>i. Quad_Facets (spec_side_quad bottom_quad top_quad i)) [0 ..< 4])"


section \<open>The tile geometry builder\<close>

definition rad :: float64 where
  "rad = Fin 180 / math_Pi"

definition sqrt3 :: float64 where
  "sqrt3 = math_Sqrt (Fin 3)"

definition cos30 :: float64 where
  "cos30 = math_Cos (Fin 30 / rad)"

definition sin30 :: float64 where
  "sin30 = math_Sin (Fin 30 / rad)"

definition unit :: float64 where
  "unit = Fin 12"

text \<open>The constant \<open>inset\<close> of the source, which the parameters of the same name hide.\<close>

definition const_inset :: float64 where
  "const_inset = Fin 0.03"

text \<open>The struct \<open>kite\<close> and the table \<open>kites\<close> of the eight placements.\<close>

record kite =
  pos :: "float64 \<times> float64"
  rot :: int

definition kites :: "kite list" where
  "kites =
    [\<lparr>pos = (Fin 0, Fin 0), rot = - 60\<rparr>,
     \<lparr>pos = (Fin 0, Fin 0), rot = - 120\<rparr>,
     \<lparr>pos = (Fin 0, Fin 0), rot = - 180\<rparr>,
     \<lparr>pos = (Fin 0, Fin 0), rot = - 240\<rparr>,
     \<lparr>pos = (Fin 0, Fin (- 2) * sqrt3), rot = 60\<rparr>,
     \<lparr>pos = (Fin 0, Fin (- 2) * sqrt3), rot = 120\<rparr>,
     \<lparr>pos = (Fin (- 3), - sqrt3), rot = - 60\<rparr>,
     \<lparr>pos = (Fin (- 3), - sqrt3), rot = 0\<rparr>]"


text \<open>
  The eight local variables \<open>x0, y0, ..., x3, y3\<close> of \<open>Kite\<close> are a tuple, in the order
  of the source's tuple assignment. \<open>reflect_xy\<close> is the assignment of the reflect
  step (line 147).
\<close>

type_synonym xy4 =
  "float64 \<times> float64 \<times> float64 \<times> float64 \<times> float64 \<times> float64 \<times> float64 \<times> float64"

definition reflect_xy :: "xy4 \<Rightarrow> xy4" where
  "reflect_xy = (\<lambda>(x0, y0, x1, y1, x2, y2, x3, y3). (- x3, y3, - x2, y2, - x1, y1, - x0, y0))"

text \<open>
  \<open>Kite_xy\<close> is \<open>Kite\<close> up to the reflect step (lines 101 to 148): the footprint,
  deflated when \<open>inset > 0\<close>, scaled, rotated, translated and reflected.
\<close>

definition Kite_xy :: "float64 \<times> float64 \<Rightarrow> int \<Rightarrow> float64 \<Rightarrow> bool \<Rightarrow> xy4" where
  "Kite_xy loc rotationDegrees inset reflect =
     (let (x0, y0) = (Fin 0, Fin 0);
          (x1, y1) = (Fin 0, sqrt3);
          (x2, y2) = (Fin 1, sqrt3);
          (x3, y3) = (sqrt3 * cos30, sqrt3 * sin30);
          (x0, y0, x1, y1, x2, y2, x3, y3) =
            (if inset > Fin 0 then
               (let deflate = Fin 1 - inset;
                    (x0, y0) = (x0 * deflate, y0 * deflate);
                    (x1, y1) = (x1 * deflate, y1 * deflate);
                    (x2, y2) = (x2 * deflate, y2 * deflate);
                    (x3, y3) = (x3 * deflate, y3 * deflate);
                    (dx, dy) = (inset * sin30, inset * cos30);
                    (x0, y0) = (x0 + dx, y0 + dy);
                    (x1, y1) = (x1 + dx, y1 + dy);
                    (x2, y2) = (x2 + dx, y2 + dy);
                    (x3, y3) = (x3 + dx, y3 + dy)
                in (x0, y0, x1, y1, x2, y2, x3, y3))
             else (x0, y0, x1, y1, x2, y2, x3, y3));
          (x0, y0) = (x0 * unit, y0 * unit);
          (x1, y1) = (x1 * unit, y1 * unit);
          (x2, y2) = (x2 * unit, y2 * unit);
          (x3, y3) = (x3 * unit, y3 * unit);
          \<theta> = float64_of_int rotationDegrees / rad;
          sin\<theta> = math_Sin \<theta>;
          cos\<theta> = math_Cos \<theta>;
          (x0, y0) = (x0 * cos\<theta> - y0 * sin\<theta>, x0 * sin\<theta> + y0 * cos\<theta>);
          (x1, y1) = (x1 * cos\<theta> - y1 * sin\<theta>, x1 * sin\<theta> + y1 * cos\<theta>);
          (x2, y2) = (x2 * cos\<theta> - y2 * sin\<theta>, x2 * sin\<theta> + y2 * cos\<theta>);
          (x3, y3) = (x3 * cos\<theta> - y3 * sin\<theta>, x3 * sin\<theta> + y3 * cos\<theta>);
          (dx, dy) = (fst loc * unit, snd loc * unit);
          (x0, y0) = (x0 + dx, y0 + dy);
          (x1, y1) = (x1 + dx, y1 + dy);
          (x2, y2) = (x2 + dx, y2 + dy);
          (x3, y3) = (x3 + dx, y3 + dy)
      in if reflect then reflect_xy (x0, y0, x1, y1, x2, y2, x3, y3)
         else (x0, y0, x1, y1, x2, y2, x3, y3))"

definition Kite :: "float64 \<times> float64 \<Rightarrow> int \<Rightarrow> float64 \<Rightarrow> bool \<Rightarrow> error + float64 Box" where
  "Kite loc rotationDegrees inset reflect =
     (let (x0, y0, x1, y1, x2, y2, x3, y3) = Kite_xy loc rotationDegrees inset reflect;
          bot = NewQuad
            x0 y0 (Fin 0)
            x1 y1 (Fin 0)
            x2 y2 (Fin 0)
            x3 y3 (Fin 0);
          height = (Fin 0.2 + inset) * unit;
          top = NewQuad
            x0 y0 height
            x3 y3 height
            x2 y2 height
            x1 y1 height
      in NewBox bot top)"


section \<open>The footprint computation over any arithmetic\<close>

text \<open>
  The same lines 101 to 148 of \<open>Kite\<close>, and the package variables they read, with the
  operations of \<open>float64\<close> as parameters: the literals, the negation, the four operations,
  the comparison \<open>>\<close>, the conversion of an int, and \<open>math.Sqrt\<close>, \<open>math.Sin\<close>,
  \<open>math.Cos\<close>. What is proved of \<open>Kite_xy_on\<close> from laws of the operations holds of
  every arithmetic with these laws, whatever it rounds; \<open>float64_arith\<close> is the arithmetic
  of the model above.
\<close>

record 'a arith =
  a_lit :: "real \<Rightarrow> 'a"
  a_neg :: "'a \<Rightarrow> 'a"
  a_add :: "'a \<Rightarrow> 'a \<Rightarrow> 'a"
  a_sub :: "'a \<Rightarrow> 'a \<Rightarrow> 'a"
  a_mul :: "'a \<Rightarrow> 'a \<Rightarrow> 'a"
  a_div :: "'a \<Rightarrow> 'a \<Rightarrow> 'a"
  a_gt :: "'a \<Rightarrow> 'a \<Rightarrow> bool"
  a_int :: "int \<Rightarrow> 'a"
  a_sqrt :: "'a \<Rightarrow> 'a"
  a_sin :: "'a \<Rightarrow> 'a"
  a_cos :: "'a \<Rightarrow> 'a"

definition rad_on :: "'a arith \<Rightarrow> 'a" where
  "rad_on A = a_div A (a_lit A 180) (a_lit A pi)"

definition sqrt3_on :: "'a arith \<Rightarrow> 'a" where
  "sqrt3_on A = a_sqrt A (a_lit A 3)"

definition cos30_on :: "'a arith \<Rightarrow> 'a" where
  "cos30_on A = a_cos A (a_div A (a_lit A 30) (rad_on A))"

definition sin30_on :: "'a arith \<Rightarrow> 'a" where
  "sin30_on A = a_sin A (a_div A (a_lit A 30) (rad_on A))"

definition unit_on :: "'a arith \<Rightarrow> 'a" where
  "unit_on A = a_lit A 12"

definition Kite_xy_on ::
  "'a arith \<Rightarrow> 'a \<times> 'a \<Rightarrow> int \<Rightarrow> 'a \<Rightarrow> bool \<Rightarrow> 'a \<times> 'a \<times> 'a \<times> 'a \<times> 'a \<times> 'a \<times> 'a \<times> 'a" where
  "Kite_xy_on A loc rotationDegrees inset reflect =
     (let (x0, y0) = (a_lit A 0, a_lit A 0);
          (x1, y1) = (a_lit A 0, sqrt3_on A);
          (x2, y2) = (a_lit A 1, sqrt3_on A);
          (x3, y3) = (a_mul A (sqrt3_on A) (cos30_on A), a_mul A (sqrt3_on A) (sin30_on A));
          (x0, y0, x1, y1, x2, y2, x3, y3) =
            (if a_gt A inset (a_lit A 0) then
               (let deflate = a_sub A (a_lit A 1) inset;
                    (x0, y0) = (a_mul A x0 deflate, a_mul A y0 deflate);
                    (x1, y1) = (a_mul A x1 deflate, a_mul A y1 deflate);
                    (x2, y2) = (a_mul A x2 deflate, a_mul A y2 deflate);
                    (x3, y3) = (a_mul A x3 deflate, a_mul A y3 deflate);
                    (dx, dy) = (a_mul A inset (sin30_on A), a_mul A inset (cos30_on A));
                    (x0, y0) = (a_add A x0 dx, a_add A y0 dy);
                    (x1, y1) = (a_add A x1 dx, a_add A y1 dy);
                    (x2, y2) = (a_add A x2 dx, a_add A y2 dy);
                    (x3, y3) = (a_add A x3 dx, a_add A y3 dy)
                in (x0, y0, x1, y1, x2, y2, x3, y3))
             else (x0, y0, x1, y1, x2, y2, x3, y3));
          (x0, y0) = (a_mul A x0 (unit_on A), a_mul A y0 (unit_on A));
          (x1, y1) = (a_mul A x1 (unit_on A), a_mul A y1 (unit_on A));
          (x2, y2) = (a_mul A x2 (unit_on A), a_mul A y2 (unit_on A));
          (x3, y3) = (a_mul A x3 (unit_on A), a_mul A y3 (unit_on A));
          \<theta> = a_div A (a_int A rotationDegrees) (rad_on A);
          sin\<theta> = a_sin A \<theta>;
          cos\<theta> = a_cos A \<theta>;
          (x0, y0) = (a_sub A (a_mul A x0 cos\<theta>) (a_mul A y0 sin\<theta>),
                      a_add A (a_mul A x0 sin\<theta>) (a_mul A y0 cos\<theta>));
          (x1, y1) = (a_sub A (a_mul A x1 cos\<theta>) (a_mul A y1 sin\<theta>),
                      a_add A (a_mul A x1 sin\<theta>) (a_mul A y1 cos\<theta>));
          (x2, y2) = (a_sub A (a_mul A x2 cos\<theta>) (a_mul A y2 sin\<theta>),
                      a_add A (a_mul A x2 sin\<theta>) (a_mul A y2 cos\<theta>));
          (x3, y3) = (a_sub A (a_mul A x3 cos\<theta>) (a_mul A y3 sin\<theta>),
                      a_add A (a_mul A x3 sin\<theta>) (a_mul A y3 cos\<theta>));
          (dx, dy) = (a_mul A (fst loc) (unit_on A), a_mul A (snd loc) (unit_on A));
          (x0, y0) = (a_add A x0 dx, a_add A y0 dy);
          (x1, y1) = (a_add A x1 dx, a_add A y1 dy);
          (x2, y2) = (a_add A x2 dx, a_add A y2 dy);
          (x3, y3) = (a_add A x3 dx, a_add A y3 dy)
      in if reflect then (a_neg A x3, y3, a_neg A x2, y2, a_neg A x1, y1, a_neg A x0, y0)
         else (x0, y0, x1, y1, x2, y2, x3, y3))"

definition float64_arith :: "float64 arith" where
  "float64_arith =
     \<lparr>a_lit = Fin, a_neg = uminus, a_add = (+), a_sub = (-), a_mul = (*), a_div = (/),
      a_gt = (\<lambda>a b. a > b), a_int = float64_of_int,
      a_sqrt = math_Sqrt, a_sin = math_Sin, a_cos = math_Cos\<rparr>"

text \<open>
  The eight coordinates of the footprint scaled by the unit, and the laws of arithmetic
  that the call with rotation 0, inset 0 and position \<open>(0, 0)\<close> relies on. They are laws
  of IEEE 754 and of \<open>math.Sin\<close> and \<open>math.Cos\<close>, in which no result is rounded: \<open>0 > 0\<close>
  is false, \<open>0 / rad\<close> is 0, the sine of 0 is 0 and its cosine 1, \<open>0 * unit\<close> is 0, and
  for each scaled coordinate \<open>v\<close> (0 and four finite numbers that are not negative)
  \<open>v * 1 = v\<close>, \<open>v * 0 = 0\<close>, \<open>v - 0 = v\<close>, \<open>0 + v = v\<close> and \<open>v + 0 = v\<close>.
\<close>

definition footprint_on :: "'a arith \<Rightarrow> 'a \<times> 'a \<times> 'a \<times> 'a \<times> 'a \<times> 'a \<times> 'a \<times> 'a" where
  "footprint_on A =
     (a_mul A (a_lit A 0) (unit_on A), a_mul A (a_lit A 0) (unit_on A),
      a_mul A (a_lit A 0) (unit_on A), a_mul A (sqrt3_on A) (unit_on A),
      a_mul A (a_lit A 1) (unit_on A), a_mul A (sqrt3_on A) (unit_on A),
      a_mul A (a_mul A (sqrt3_on A) (cos30_on A)) (unit_on A),
      a_mul A (a_mul A (sqrt3_on A) (sin30_on A)) (unit_on A))"

definition exact_at_zero :: "'a arith \<Rightarrow> bool" where
  "exact_at_zero A =
     (let zero = a_lit A 0; one = a_lit A 1
      in \<not> a_gt A zero zero
       \<and> a_div A (a_int A 0) (rad_on A) = zero
       \<and> a_sin A zero = zero \<and> a_cos A zero = one
       \<and> a_mul A zero (unit_on A) = zero
       \<and> list_all (\<lambda>v. a_mul A v one = v \<and> a_mul A v zero = zero \<and> a_sub A v zero = v
                        \<and> a_add A zero v = v \<and> a_add A v zero = v)
            [zero, a_mul A (sqrt3_on A) (unit_on A),
             a_mul A one (unit_on A),
             a_mul A (a_mul A (sqrt3_on A) (cos30_on A)) (unit_on A),
             a_mul A (a_mul A (sqrt3_on A) (sin30_on A)) (unit_on A)])"


section \<open>The output\<close>

text \<open>
  The text that \<open>fmt\<close> produces for the verb \<open>%.6e\<close>, from the documentation of the
  package: for a finite number an optional minus sign, one digit, a point, six digits,
  the letter \<open>e\<close>, the sign of the exponent and at least two digits of it, the number
  rounded to seven significant digits (a tie to the even digit); \<open>+Inf\<close>, \<open>-Inf\<close> and
  \<open>NaN\<close> for the special values. \<open>decimal\<close> is the verb \<open>%d\<close> on a number that is not
  negative, \<open>nl\<close> the newline.
\<close>

definition nl :: string where
  "nl = [CHR 0x0A]"

definition digit_char :: "nat \<Rightarrow> char" where
  "digit_char d = ''0123456789'' ! (d mod 10)"

fun decimal :: "nat \<Rightarrow> string" where
  "decimal n = (if n < 10 then [digit_char n] else decimal (n div 10) @ [digit_char (n mod 10)])"

definition round_half_even :: "real \<Rightarrow> int" where
  "round_half_even r =
     (let f = \<lfloor>r\<rfloor>; d = r - of_int f
      in if d < 1 / 2 then f else if 1 / 2 < d then f + 1 else if even f then f else f + 1)"

definition sci_parts :: "real \<Rightarrow> nat \<times> int" where
  "sci_parts x =
     (let e = \<lfloor>log 10 \<bar>x\<bar>\<rfloor>;
          m = round_half_even (\<bar>x\<bar> / 10 powr (of_int e - 6))
      in if m = 10 ^ 7 then (10 ^ 6, e + 1) else (nat m, e))"

fun fmt_e6 :: "float64 \<Rightarrow> string" where
  "fmt_e6 (Fin x) =
     (if x = 0 then ''0.000000e+00''
      else let (m, e) = sci_parts x
           in (if x < 0 then ''-'' else [])
              @ [digit_char (m div 10 ^ 6)] @ ''.''
              @ map (\<lambda>k. digit_char (m div 10 ^ k)) [5, 4, 3, 2, 1, 0]
              @ ''e'' @ (if e < 0 then ''-'' else ''+'')
              @ (if \<bar>e\<bar> < 10 then ''0'' else []) @ decimal (nat \<bar>e\<bar>))"
| "fmt_e6 PInf = ''+Inf''"
| "fmt_e6 NInf = ''-Inf''"
| "fmt_e6 NaN = ''NaN''"

text \<open>
  \<open>Point.String\<close>, \<open>Facet.String\<close>, \<open>render\<close> and \<open>main\<close>. \<open>render\<close> fails when \<open>Kite\<close>
  does. The standard output of \<open>main\<close> is the list of the strings that its calls of
  \<open>fmt.Println\<close> write, each with the newline that \<open>Println\<close> adds; when \<open>log.Fatal\<close>
  ends the process, what was written before stays written. \<open>reflect\<close> is the value of
  the flag \<open>-r\<close>.
\<close>

definition Point_String :: "float64 Point \<Rightarrow> string" where
  "Point_String p = fmt_e6 (px p) @ '' '' @ fmt_e6 (py p) @ '' '' @ fmt_e6 (pz p)"

definition Facet_String :: "float64 Facet \<Rightarrow> string" where
  "Facet_String f =
     ''facet normal '' @ Point_String (Facet_Normal f) @ nl
     @ ''  outer loop'' @ nl
     @ concat (map (\<lambda>p. ''    vertex '' @ Point_String p @ nl) [f0 f, f1 f, f2 f])
     @ ''  endloop'' @ nl
     @ ''endfacet'' @ nl"

definition render :: "string \<Rightarrow> kite \<Rightarrow> float64 \<Rightarrow> bool \<Rightarrow> error + string" where
  "render name k inset reflect =
     (case Kite (pos k) (rot k) inset reflect of
        Inl e \<Rightarrow> Inl e
      | Inr stl \<Rightarrow>
          Inr (''solid '' @ name @ nl @ nl
               @ concat (map (\<lambda>f. Facet_String f @ nl) (Box_Facets stl))))"

definition kite_name :: "nat \<Rightarrow> string" where
  "kite_name i = ''kite'' @ decimal i"

definition kite_inset_name :: "nat \<Rightarrow> string" where
  "kite_inset_name i = ''kite-inset'' @ decimal i"

fun main_loop :: "bool \<Rightarrow> nat \<Rightarrow> kite list \<Rightarrow> string list \<times> error option" where
  "main_loop reflect i [] = ([], None)"
| "main_loop reflect i (k # ks) =
     (case render (kite_name i) k (Fin 0) reflect of
        Inl e \<Rightarrow> ([], Some e)
      | Inr s1 \<Rightarrow>
          (case render (kite_inset_name i) k const_inset reflect of
             Inl e \<Rightarrow> ([s1 @ nl], Some e)
           | Inr s2 \<Rightarrow>
               (let (out, err) = main_loop reflect (Suc i) ks
                in ((s1 @ nl) # (s2 @ nl) # out, err))))"

definition main :: "bool \<Rightarrow> string list \<times> error option" where
  "main reflect = main_loop reflect 0 kites"


section \<open>Notions of the specification\<close>

text \<open>
  The output format of the specification: a coordinate in scientific notation with six
  digits after the point; a point as three of them; a facet record with its normal line,
  the loop marker, three vertex lines and the two terminators; a solid block as the
  header that names the solid and exactly 12 facet records, each followed by the
  newline that \<open>Fprintln\<close> adds.
\<close>

definition is_digit :: "char \<Rightarrow> bool" where
  "is_digit c = (c \<in> set ''0123456789'')"

definition sci6 :: "string \<Rightarrow> bool" where
  "sci6 s = (\<exists>sg d ds es ed.
       s = sg @ [d] @ ''.'' @ ds @ ''e'' @ es @ ed
     \<and> (sg = [] \<or> sg = ''-'') \<and> is_digit d
     \<and> length ds = 6 \<and> list_all is_digit ds
     \<and> (es = ''+'' \<or> es = ''-'')
     \<and> 2 \<le> length ed \<and> list_all is_digit ed)"

definition point_text :: "string \<Rightarrow> bool" where
  "point_text s = (\<exists>c1 c2 c3. s = c1 @ '' '' @ c2 @ '' '' @ c3 \<and> sci6 c1 \<and> sci6 c2 \<and> sci6 c3)"

definition facet_record :: "string \<Rightarrow> bool" where
  "facet_record s = (\<exists>n v0 v1 v2.
       s = ''facet normal '' @ n @ nl
         @ ''  outer loop'' @ nl
         @ ''    vertex '' @ v0 @ nl
         @ ''    vertex '' @ v1 @ nl
         @ ''    vertex '' @ v2 @ nl
         @ ''  endloop'' @ nl
         @ ''endfacet'' @ nl
     \<and> point_text n \<and> point_text v0 \<and> point_text v1 \<and> point_text v2)"

definition solid_block :: "string \<Rightarrow> string \<Rightarrow> bool" where
  "solid_block name s = (\<exists>rs.
       s = ''solid '' @ name @ nl @ nl @ concat (map (\<lambda>r. r @ nl) rs)
     \<and> length rs = 12 \<and> list_all facet_record rs)"

text \<open>A point whose three coordinates are finite numbers.\<close>

definition is_Fin_Point :: "float64 Point \<Rightarrow> bool" where
  "is_Fin_Point p = (is_Fin (px p) \<and> is_Fin (py p) \<and> is_Fin (pz p))"


section \<open>Example inputs\<close>

text \<open>
  A unit cube: the bottom square wound clockwise seen from above, the top square with the
  same corners one unit higher, in the reverse order (as \<open>Kite\<close> builds its two quads).
\<close>

definition cube_bottom :: "float64 Quad" where
  "cube_bottom = Quad (Point (Fin 0) (Fin 0) (Fin 0)) (Point (Fin 0) (Fin 1) (Fin 0))
                      (Point (Fin 1) (Fin 1) (Fin 0)) (Point (Fin 1) (Fin 0) (Fin 0))"

definition cube_top :: "float64 Quad" where
  "cube_top = Quad (Point (Fin 0) (Fin 0) (Fin 1)) (Point (Fin 1) (Fin 0) (Fin 1))
                   (Point (Fin 1) (Fin 1) (Fin 1)) (Point (Fin 0) (Fin 1) (Fin 1))"


text \<open>A degenerate quad: four distinct points on one line, so that both its triangles have area 0.\<close>

definition flat_quad :: "float64 Quad" where
  "flat_quad = Quad (Point (Fin 0) (Fin 0) (Fin 0)) (Point (Fin 1) (Fin 0) (Fin 0))
                    (Point (Fin 2) (Fin 0) (Fin 0)) (Point (Fin 3) (Fin 0) (Fin 0))"


text \<open>
  An arrowhead in the plane \<open>Z = 0\<close>, its vertices listed counter-clockwise around it: the
  vertex 1 is the notch, so that the diagonal from vertex 2 to vertex 0 runs outside.
\<close>

definition arrow_quad :: "float64 Quad" where
  "arrow_quad = Quad (Point (Fin 0) (Fin 0) (Fin 0)) (Point (Fin 1) (Fin 1) (Fin 0))
                     (Point (Fin 2) (Fin 0) (Fin 0)) (Point (Fin 1) (Fin 3) (Fin 0))"


section \<open>Auxiliary notions for the proofs\<close>

text \<open>
  The cross product \<open>(f[1] - f[0]) \<times> (f[2] - f[0])\<close> that \<open>Facet.Normal\<close> computes in
  \<open>nx\<close>, \<open>ny\<close>, \<open>nz\<close> before it divides by the norm.
\<close>

definition Facet_cross :: "float64 Facet \<Rightarrow> float64 Point" where
  "Facet_cross f =
     (let u = Point_sub (f1 f) (f0 f);
          v = Point_sub (f2 f) (f0 f)
      in Point (py u * pz v - pz u * py v) (pz u * px v - px u * pz v) (px u * py v - py u * px v))"


text \<open>
  What \<open>Kite\<close> computes from finite arguments, before the reflect step, as real numbers:
  the footprint point \<open>(x, y)\<close> is deflated by \<open>kite_k i\<close> and moved by
  \<open>(kite_ox i, kite_oy i)\<close> when the inset \<open>i\<close> is positive, scaled by 12, rotated by
  \<open>r\<close> degrees and moved by 12 times the position.
\<close>

definition kite_k :: "real \<Rightarrow> real" where
  "kite_k i = (if 0 < i then 1 - i else 1)"

definition kite_ox :: "real \<Rightarrow> real" where
  "kite_ox i = (if 0 < i then i * (1 / 2) else 0)"

definition kite_oy :: "real \<Rightarrow> real" where
  "kite_oy i = (if 0 < i then i * (sqrt 3 / 2) else 0)"

definition kite_x :: "real \<Rightarrow> int \<Rightarrow> real \<Rightarrow> real \<Rightarrow> real \<Rightarrow> real" where
  "kite_x lx r i x y =
     (x * kite_k i + kite_ox i) * 12 * cos (real_of_int r / (180 / pi))
     - (y * kite_k i + kite_oy i) * 12 * sin (real_of_int r / (180 / pi)) + lx * 12"

definition kite_y :: "real \<Rightarrow> int \<Rightarrow> real \<Rightarrow> real \<Rightarrow> real \<Rightarrow> real" where
  "kite_y ly r i x y =
     (x * kite_k i + kite_ox i) * 12 * sin (real_of_int r / (180 / pi))
     + (y * kite_k i + kite_oy i) * 12 * cos (real_of_int r / (180 / pi)) + ly * 12"

text \<open>A unit vector: finite components whose squares add up to 1.\<close>

definition unit_vector :: "float64 Point \<Rightarrow> bool" where
  "unit_vector p = (is_Fin (px p) \<and> is_Fin (py p) \<and> is_Fin (pz p)
     \<and> val (px p) * val (px p) + val (py p) * val (py p) + val (pz p) * val (pz p) = 1)"

text \<open>
  The shape of the boxes that \<open>Kite\<close> builds: four finite vertices at the height \<open>z1\<close>,
  and the same vertices at the height \<open>z2\<close>, backwards from the first one.
\<close>

definition prism ::
  "real \<Rightarrow> real \<Rightarrow> real \<Rightarrow> real \<Rightarrow> real \<Rightarrow> real \<Rightarrow> real \<Rightarrow> real \<Rightarrow> real \<Rightarrow> real \<Rightarrow> float64 Box" where
  "prism x0 y0 x1 y1 x2 y2 x3 y3 z1 z2 =
     Box (Quad (Point (Fin x0) (Fin y0) (Fin z1)) (Point (Fin x1) (Fin y1) (Fin z1))
               (Point (Fin x2) (Fin y2) (Fin z1)) (Point (Fin x3) (Fin y3) (Fin z1)))
         (Quad (Point (Fin x0) (Fin y0) (Fin z2)) (Point (Fin x3) (Fin y3) (Fin z2))
               (Point (Fin x2) (Fin y2) (Fin z2)) (Point (Fin x1) (Fin y1) (Fin z2)))"


text \<open>
  The box that \<open>Kite\<close> builds from finite arguments: the transformed footprint, reflected
  or not, between \<open>Z = 0\<close> and \<open>Z = (0.2 + i) * 12\<close>.
\<close>

definition kite_prism :: "real \<Rightarrow> real \<Rightarrow> int \<Rightarrow> real \<Rightarrow> bool \<Rightarrow> float64 Box" where
  "kite_prism lx ly r i reflect =
     (if reflect then
        prism (- kite_x lx r i (3 / 2) (sqrt 3 / 2)) (kite_y ly r i (3 / 2) (sqrt 3 / 2))
              (- kite_x lx r i 1 (sqrt 3)) (kite_y ly r i 1 (sqrt 3))
              (- kite_x lx r i 0 (sqrt 3)) (kite_y ly r i 0 (sqrt 3))
              (- kite_x lx r i 0 0) (kite_y ly r i 0 0)
              0 ((2 / 10 + i) * 12)
      else
        prism (kite_x lx r i 0 0) (kite_y ly r i 0 0)
              (kite_x lx r i 0 (sqrt 3)) (kite_y ly r i 0 (sqrt 3))
              (kite_x lx r i 1 (sqrt 3)) (kite_y ly r i 1 (sqrt 3))
              (kite_x lx r i (3 / 2) (sqrt 3 / 2)) (kite_y ly r i (3 / 2) (sqrt 3 / 2))
              0 ((2 / 10 + i) * 12))"

text \<open>
  A value that is the finite number \<open>a\<close>, of magnitude at most \<open>2^n\<close>: the bounds keep
  the arithmetic of the proofs away from overflow.
\<close>

definition finite_val :: "nat \<Rightarrow> real \<Rightarrow> float64 \<Rightarrow> bool" where
  "finite_val n a x = (x = Fin a \<and> \<bar>a\<bar> \<le> 2 ^ n)"

text \<open>
  A facet that prints without a special value, and a placement at a finite position of
  moderate size with a rotation that is an int of Go.
\<close>

definition facet_finite :: "float64 Facet \<Rightarrow> bool" where
  "facet_finite f = (is_Fin_Point (f0 f) \<and> is_Fin_Point (f1 f) \<and> is_Fin_Point (f2 f)
     \<and> is_Fin_Point (Facet_Normal f))"

definition kite_ok :: "kite \<Rightarrow> bool" where
  "kite_ok k = (is_Fin (fst (pos k)) \<and> is_Fin (snd (pos k))
     \<and> \<bar>val (fst (pos k))\<bar> \<le> 2 ^ 10 \<and> \<bar>val (snd (pos k))\<bar> \<le> 2 ^ 10 \<and> \<bar>rot k\<bar> \<le> 2 ^ 63)"



section \<open>Quad.Facets\<close>

text \<open>
  C8: for every quad, \<open>Facets()\<close> returns exactly the two triangles \<open>(q[0], q[1], q[2])\<close>
  and \<open>(q[2], q[3], q[0])\<close>, whatever the values of the vertices and whatever the type
  of their coordinates.
\<close>

theorem Quad_Facets_fixed_diagonal:
  "Quad_Facets (Quad v0 v1 v2 v3) = [Facet v0 v1 v2, Facet v2 v3 v0]"
  by (simp add: Quad_Facets_def)



section \<open>Facts of the float64 model\<close>

lemmas f_ops = uminus_float64_def plus_float64_def minus_float64_def times_float64_def
  divide_float64_def less_eq_float64_def less_float64_def

lemma f_neg_neg: "f_neg (f_neg a) = a"
  by (cases a) simp_all

lemma float_huge_gt: "2 ^ 1000 < float_huge"
proof -
  have "(2::real) ^ 1024 = 2 ^ 970 * 2 ^ 54" by (simp add: power_add[symmetric])
  then have "float_huge = 2 ^ 970 * (2 ^ 54 - 1)" by (simp add: float_huge_def algebra_simps)
  moreover have "(2::real) ^ 1000 = 2 ^ 970 * 2 ^ 30" by (simp add: power_add[symmetric])
  moreover have "(2::real) ^ 30 < 2 ^ 54 - 1" by simp
  ultimately show ?thesis by simp
qed

lemma overflow_Fin: "\<bar>x\<bar> \<le> 2 ^ 1000 \<Longrightarrow> overflow x = Fin x"
  using float_huge_gt by (auto simp: overflow_def)

lemma overflow_small [simp]: "\<bar>x\<bar> \<le> 2 ^ 64 \<Longrightarrow> overflow x = Fin x"
proof -
  assume "\<bar>x\<bar> \<le> 2 ^ 64"
  moreover have "(2::real) ^ 64 \<le> 2 ^ 1000" by (rule power_increasing) simp_all
  ultimately have "\<bar>x\<bar> \<le> 2 ^ 1000" by linarith
  then show ?thesis by (rule overflow_Fin)
qed

lemma f_ge0_iff: "(z \<ge> Fin 0) = (\<not> is_NaN z \<and> \<not> z < Fin 0)"
  by (cases z) (auto simp: f_ops)

lemma f_le0_iff: "(z \<le> Fin 0) = (\<not> is_NaN z \<and> \<not> Fin 0 < z)"
  by (cases z) (auto simp: f_ops)

lemma NaN_absorb [simp]:
  "f_add NaN a = NaN" "f_add a NaN = NaN" "f_mul NaN a = NaN" "f_mul a NaN = NaN"
  "f_div NaN a = NaN" "f_div a NaN = NaN"
  by (cases a; simp)+

lemma is_Fin_val: "is_Fin a \<Longrightarrow> a = Fin (val a)"
  by (cases a) simp_all

text \<open>
  Arithmetic without overflow: when the operands are finite and bounded by powers of 2,
  the result is the exact one, bounded in its turn.
\<close>

lemma finite_val_add:
  assumes "finite_val m a x" "finite_val n b y" "max m n + 1 \<le> 1000"
  shows "finite_val (max m n + 1) (a + b) (x + y)"
proof -
  have "\<bar>a\<bar> \<le> 2 ^ m" "(2::real) ^ m \<le> 2 ^ max m n" "\<bar>b\<bar> \<le> 2 ^ n" "(2::real) ^ n \<le> 2 ^ max m n"
    using assms by (simp_all add: finite_val_def)
  then have "\<bar>a\<bar> \<le> 2 ^ max m n" "\<bar>b\<bar> \<le> 2 ^ max m n"
    by linarith+
  then have b: "\<bar>a + b\<bar> \<le> 2 ^ (max m n + 1)" by simp
  also have "\<dots> \<le> 2 ^ 1000" using assms(3) by (intro power_increasing) simp_all
  finally have "overflow (a + b) = Fin (a + b)" by (rule overflow_Fin)
  with assms b show ?thesis by (simp add: finite_val_def f_ops)
qed

lemma finite_val_neg: "finite_val m a x \<Longrightarrow> finite_val m (- a) (- x)"
  by (simp add: finite_val_def f_ops)

lemma finite_val_sub:
  assumes "finite_val m a x" "finite_val n b y" "max m n + 1 \<le> 1000"
  shows "finite_val (max m n + 1) (a - b) (x - y)"
  using finite_val_add[OF assms(1) finite_val_neg[OF assms(2)] assms(3)]
  by (simp add: finite_val_def f_ops)

lemma finite_val_mul:
  assumes "finite_val m a x" "finite_val n b y" "m + n \<le> 1000"
  shows "finite_val (m + n) (a * b) (x * y)"
proof -
  have "\<bar>a * b\<bar> \<le> 2 ^ m * 2 ^ n"
    using assms unfolding abs_mult by (intro mult_mono) (auto simp: finite_val_def)
  then have b: "\<bar>a * b\<bar> \<le> 2 ^ (m + n)" by (simp add: power_add)
  also have "\<dots> \<le> 2 ^ 1000" using assms(3) by (intro power_increasing) simp_all
  finally have "overflow (a * b) = Fin (a * b)" by (rule overflow_Fin)
  with assms b show ?thesis by (simp add: finite_val_def f_ops)
qed

lemma finite_val_sin: "finite_val m a x \<Longrightarrow> finite_val 0 (sin a) (math_Sin x)"
  by (simp add: finite_val_def)

lemma finite_val_cos: "finite_val m a x \<Longrightarrow> finite_val 0 (cos a) (math_Cos x)"
  by (simp add: finite_val_def)

lemma finite_valI: "finite_val k a x \<Longrightarrow> a = c \<Longrightarrow> k \<le> n \<Longrightarrow> finite_val n c x"
proof -
  assume "finite_val k a x" "a = c" "k \<le> n"
  then have "\<bar>c\<bar> \<le> 2 ^ k" "(2::real) ^ k \<le> 2 ^ n" "x = Fin c" by (simp_all add: finite_val_def)
  then show ?thesis unfolding finite_val_def by linarith
qed

lemma finite_val_Fin: "\<bar>a\<bar> \<le> 2 ^ n \<Longrightarrow> finite_val n a (Fin a)"
  by (simp add: finite_val_def)

lemma finite_val_0: "finite_val 0 0 (Fin 0)" by (simp add: finite_val_def)

lemma finite_val_1: "finite_val 0 1 (Fin 1)" by (simp add: finite_val_def)

lemma rad_val: "rad = Fin (180 / pi)"
proof -
  have "180 / pi \<le> 180 / 2" using pi_ge_two by (intro divide_left_mono) simp_all
  then have "\<bar>180 / pi\<bar> \<le> 2 ^ 1000" by simp
  then show ?thesis by (simp add: rad_def math_Pi_def f_ops overflow_Fin)
qed

lemma sqrt3_val: "sqrt3 = Fin (sqrt 3)"
  by (simp add: sqrt3_def)

lemma deg30: "Fin 30 / rad = Fin (pi / 6)"
proof -
  have "pi / 6 \<le> 4 / 6" using pi_less_4 by simp
  then have "\<bar>pi / 6\<bar> \<le> 2 ^ 1000" by simp
  then show ?thesis by (simp add: rad_val f_ops overflow_Fin)
qed

lemma cos30_val: "cos30 = Fin (sqrt 3 / 2)"
  by (simp add: cos30_def deg30 cos_30)

lemma sin30_val: "sin30 = Fin (1 / 2)"
  by (simp add: sin30_def deg30 sin_30)

lemma sqrt3_le2: "sqrt 3 \<le> 2"
proof -
  have "sqrt 3 \<le> sqrt 4" by (intro real_sqrt_le_mono) simp
  then show ?thesis by simp
qed

lemma finite_val_sqrt3: "finite_val 1 (sqrt 3) sqrt3"
  using sqrt3_le2 by (simp add: finite_val_def sqrt3_val)

lemma finite_val_cos30: "finite_val 0 (sqrt 3 / 2) cos30"
  using sqrt3_le2 by (simp add: finite_val_def cos30_val)

lemma finite_val_sin30: "finite_val 0 (1 / 2) sin30"
  by (simp add: finite_val_def sin30_val)

lemma finite_val_unit: "finite_val 4 12 unit"
  by (simp add: finite_val_def unit_def)

lemma finite_val_angle:
  assumes "\<bar>r\<bar> \<le> 2 ^ 63"
  shows "finite_val 63 (real_of_int r / (180 / pi)) (float64_of_int r / rad)"
proof -
  have r: "\<bar>real_of_int r\<bar> \<le> 2 ^ 63"
    using assms by (metis of_int_abs of_int_le_iff of_int_numeral of_int_power)
  moreover have p: "(2::real) ^ 63 \<le> 2 ^ 1000" by (rule power_increasing) simp_all
  ultimately have "\<bar>real_of_int r\<bar> \<le> 2 ^ 1000" by linarith
  then have 1: "float64_of_int r = Fin (real_of_int r)"
    by (simp add: float64_of_int_def overflow_Fin)
  have "1 \<le> 180 / pi" using pi_less_4 by (simp add: field_simps)
  then have "\<bar>real_of_int r\<bar> / (180 / pi) \<le> \<bar>real_of_int r\<bar> / 1"
    by (intro divide_left_mono) simp_all
  then have "\<bar>real_of_int r / (180 / pi)\<bar> \<le> \<bar>real_of_int r\<bar>"
    using pi_gt_zero by (simp add: abs_divide del: divide_divide_eq_right)
  with r have b: "\<bar>real_of_int r / (180 / pi)\<bar> \<le> 2 ^ 63" by simp
  with p have "\<bar>real_of_int r / (180 / pi)\<bar> \<le> 2 ^ 1000" by linarith
  then have "overflow (real_of_int r / (180 / pi)) = Fin (real_of_int r / (180 / pi))"
    by (rule overflow_Fin)
  with b show ?thesis using pi_gt_zero by (simp add: finite_val_def 1 rad_val f_ops)
qed

lemmas finite_val_rules = finite_val_add finite_val_sub finite_val_mul finite_val_neg
  finite_val_sin finite_val_cos finite_val_0 finite_val_1 finite_val_sqrt3 finite_val_cos30
  finite_val_sin30 finite_val_unit




section \<open>Facet.Normal\<close>

lemma Facet_Normal_cross:
  "Facet_Normal f =
     (let n = Facet_cross f;
          norm = math_Sqrt (px n * px n + py n * py n + pz n * pz n)
      in Point (px n / norm) (py n / norm) (pz n / norm))"
  by (simp add: Facet_Normal_def Facet_cross_def Let_def)

lemma abs_le_norm3:
  fixes nx ny nz :: real
  shows "\<bar>nx\<bar> \<le> sqrt (nx * nx + ny * ny + nz * nz)"
    "\<bar>ny\<bar> \<le> sqrt (nx * nx + ny * ny + nz * nz)"
    "\<bar>nz\<bar> \<le> sqrt (nx * nx + ny * ny + nz * nz)"
proof -
  have "sqrt (nx * nx) \<le> sqrt (nx * nx + ny * ny + nz * nz)"
    "sqrt (ny * ny) \<le> sqrt (nx * nx + ny * ny + nz * nz)"
    "sqrt (nz * nz) \<le> sqrt (nx * nx + ny * ny + nz * nz)"
    by (intro real_sqrt_le_mono; simp)+
  then show "\<bar>nx\<bar> \<le> sqrt (nx * nx + ny * ny + nz * nz)"
    "\<bar>ny\<bar> \<le> sqrt (nx * nx + ny * ny + nz * nz)"
    "\<bar>nz\<bar> \<le> sqrt (nx * nx + ny * ny + nz * nz)"
    by simp_all
qed

lemma Facet_cross_fin:
  assumes "\<bar>u1\<bar> \<le> 2 ^ 200" "\<bar>u2\<bar> \<le> 2 ^ 200" "\<bar>u3\<bar> \<le> 2 ^ 200"
    "\<bar>v1\<bar> \<le> 2 ^ 200" "\<bar>v2\<bar> \<le> 2 ^ 200" "\<bar>v3\<bar> \<le> 2 ^ 200"
    "\<bar>w1\<bar> \<le> 2 ^ 200" "\<bar>w2\<bar> \<le> 2 ^ 200" "\<bar>w3\<bar> \<le> 2 ^ 200"
  shows "finite_val 403 ((v2 - u2) * (w3 - u3) - (v3 - u3) * (w2 - u2))
           (px (Facet_cross (Facet (Point (Fin u1) (Fin u2) (Fin u3)) (Point (Fin v1) (Fin v2) (Fin v3))
                       (Point (Fin w1) (Fin w2) (Fin w3)))))"
    and "finite_val 403 ((v3 - u3) * (w1 - u1) - (v1 - u1) * (w3 - u3))
           (py (Facet_cross (Facet (Point (Fin u1) (Fin u2) (Fin u3)) (Point (Fin v1) (Fin v2) (Fin v3))
                       (Point (Fin w1) (Fin w2) (Fin w3)))))"
    and "finite_val 403 ((v1 - u1) * (w2 - u2) - (v2 - u2) * (w1 - u1))
           (pz (Facet_cross (Facet (Point (Fin u1) (Fin u2) (Fin u3)) (Point (Fin v1) (Fin v2) (Fin v3))
                       (Point (Fin w1) (Fin w2) (Fin w3)))))"
proof -
  note v = assms[THEN finite_val_Fin]
  show "finite_val 403 ((v2 - u2) * (w3 - u3) - (v3 - u3) * (w2 - u2))
           (px (Facet_cross (Facet (Point (Fin u1) (Fin u2) (Fin u3)) (Point (Fin v1) (Fin v2) (Fin v3))
                       (Point (Fin w1) (Fin w2) (Fin w3)))))"
    unfolding Facet_cross_def Point_sub_def Let_def Point.sel Facet.sel
    by (rule finite_valI, (rule finite_val_rules v | (simp; fail))+)
  show "finite_val 403 ((v3 - u3) * (w1 - u1) - (v1 - u1) * (w3 - u3))
           (py (Facet_cross (Facet (Point (Fin u1) (Fin u2) (Fin u3)) (Point (Fin v1) (Fin v2) (Fin v3))
                       (Point (Fin w1) (Fin w2) (Fin w3)))))"
    unfolding Facet_cross_def Point_sub_def Let_def Point.sel Facet.sel
    by (rule finite_valI, (rule finite_val_rules v | (simp; fail))+)
  show "finite_val 403 ((v1 - u1) * (w2 - u2) - (v2 - u2) * (w1 - u1))
           (pz (Facet_cross (Facet (Point (Fin u1) (Fin u2) (Fin u3)) (Point (Fin v1) (Fin v2) (Fin v3))
                       (Point (Fin w1) (Fin w2) (Fin w3)))))"
    unfolding Facet_cross_def Point_sub_def Let_def Point.sel Facet.sel
    by (rule finite_valI, (rule finite_val_rules v | (simp; fail))+)
qed

lemma normalise_fin:
  assumes "finite_val 403 nx a" "finite_val 403 ny b" "finite_val 403 nz c"
  shows "(let norm = math_Sqrt (a * a + b * b + c * c) in Point (a / norm) (b / norm) (c / norm))
   = (let n = sqrt (nx * nx + ny * ny + nz * nz)
      in if n = 0 then Point NaN NaN NaN else Point (Fin (nx / n)) (Fin (ny / n)) (Fin (nz / n)))"
proof -
  define s where "s = nx * nx + ny * ny + nz * nz"
  have nn: "0 \<le> s" by (simp add: s_def)
  have z: "s = 0 \<Longrightarrow> nx = 0 \<and> ny = 0 \<and> nz = 0"
    unfolding s_def
    by (smt (verit) mult_eq_0_iff zero_le_square add_nonneg_eq_0_iff add_nonneg_nonneg)
  have abc: "a = Fin nx" "b = Fin ny" "c = Fin nz"
    using assms by (simp_all add: finite_val_def)
  have "finite_val 808 (nx * nx + ny * ny + nz * nz) (a * a + b * b + c * c)"
    by (rule finite_valI, (rule finite_val_rules assms | (simp; fail))+)
  then have S: "Fin nx * Fin nx + Fin ny * Fin ny + Fin nz * Fin nz = Fin s"
    by (simp add: finite_val_def s_def abc)
  show ?thesis
  proof (cases "s = 0")
    case True
    with z show ?thesis unfolding abc S by (simp add: f_ops s_def)
  next
    case False
    with nn have p: "\<not> s < 0" "sqrt s \<noteq> 0" "0 < sqrt s" by simp_all
    have "\<bar>nx\<bar> \<le> sqrt s" "\<bar>ny\<bar> \<le> sqrt s" "\<bar>nz\<bar> \<le> sqrt s"
      unfolding s_def by (rule abs_le_norm3)+
    then have "\<bar>nx / sqrt s\<bar> \<le> 1" "\<bar>ny / sqrt s\<bar> \<le> 1" "\<bar>nz / sqrt s\<bar> \<le> 1"
      using p by (simp_all add: abs_divide)
    then have "overflow (nx / sqrt s) = Fin (nx / sqrt s)" "overflow (ny / sqrt s) = Fin (ny / sqrt s)"
      "overflow (nz / sqrt s) = Fin (nz / sqrt s)"
      by (intro overflow_Fin; simp)+
    with p show ?thesis unfolding abc S by (simp add: f_ops Let_def s_def[symmetric])
  qed
qed

lemma Facet_Normal_fin:
  assumes "\<bar>u1\<bar> \<le> 2 ^ 200" "\<bar>u2\<bar> \<le> 2 ^ 200" "\<bar>u3\<bar> \<le> 2 ^ 200"
    "\<bar>v1\<bar> \<le> 2 ^ 200" "\<bar>v2\<bar> \<le> 2 ^ 200" "\<bar>v3\<bar> \<le> 2 ^ 200"
    "\<bar>w1\<bar> \<le> 2 ^ 200" "\<bar>w2\<bar> \<le> 2 ^ 200" "\<bar>w3\<bar> \<le> 2 ^ 200"
  shows "Facet_Normal (Facet (Point (Fin u1) (Fin u2) (Fin u3)) (Point (Fin v1) (Fin v2) (Fin v3))
                       (Point (Fin w1) (Fin w2) (Fin w3)))
   = (let nx = (v2 - u2) * (w3 - u3) - (v3 - u3) * (w2 - u2);
          ny = (v3 - u3) * (w1 - u1) - (v1 - u1) * (w3 - u3);
          nz = (v1 - u1) * (w2 - u2) - (v2 - u2) * (w1 - u1);
          n = sqrt (nx * nx + ny * ny + nz * nz)
      in if n = 0 then Point NaN NaN NaN else Point (Fin (nx / n)) (Fin (ny / n)) (Fin (nz / n)))"
  unfolding Facet_Normal_cross[of "Facet _ _ _"]
  using normalise_fin[OF Facet_cross_fin[OF assms]] by (simp add: Let_def)


section \<open>Box.Facets\<close>

lemma cube_NewBox: "NewBox cube_bottom cube_top = Inr (Box cube_bottom cube_top)"
  by (simp add: NewBox_def Quad_Facets_def Facet_Normal_def Point_sub_def Let_def f_ops
      cube_bottom_def cube_top_def)

text \<open>
  C2, as stated, fails. \<open>Box.Facets\<close> does not pair edge \<open>i\<close> of one quad with edge \<open>i\<close>
  of the other: on the unit cube, which \<open>NewBox\<close> accepts, the first triangle of the side
  quad \<open>(bottom[0], bottom[1], top[1], top[0])\<close> of the claim is not one of the facets
  that \<open>Box.Facets\<close> returns, whether \<open>bottom\<close> is read as the quad \<open>NewBox\<close> checks as
  the bottom (element 0 of the box) or as the quad that \<open>Box.Facets\<close> names \<open>bot\<close>
  (element 1).
\<close>

theorem Box_Facets_spec_side_quad_counterexample:
  "NewBox cube_bottom cube_top = Inr (Box cube_bottom cube_top)
   \<and> Quad_Facets (spec_side_quad cube_bottom cube_top 0) ! 0
       \<in> set (spec_Box_Facets cube_bottom cube_top)
   \<and> Quad_Facets (spec_side_quad cube_bottom cube_top 0) ! 0
       \<notin> set (Box_Facets (Box cube_bottom cube_top))
   \<and> Quad_Facets (spec_side_quad cube_top cube_bottom 0) ! 0
       \<in> set (spec_Box_Facets cube_top cube_bottom)
   \<and> Quad_Facets (spec_side_quad cube_top cube_bottom 0) ! 0
       \<notin> set (Box_Facets (Box cube_bottom cube_top))"
  by (simp add: cube_NewBox)
    (simp add: spec_Box_Facets_def spec_side_quad_def Quad_at_def Box_Facets_def
      Quad_Facets_def cube_bottom_def cube_top_def upt_rec)

text \<open>
  C2, amended: for every box, \<open>Facets()\<close> returns exactly 12 triangles: the two of
  element 0 of the box (the quad that \<open>NewBox\<close> checks as the bottom), then the two of
  element 1 (the top), each cap in its quad's own winding, then the 8 triangles of the
  four side quads \<open>(b[1][(4-i) mod 4], b[1][(3-i) mod 4], b[0][(i+1) mod 4], b[0][i])\<close> for
  \<open>i\<close> from 0 to 3, each split by \<open>Quad.Facets\<close>: the edges of element 1 are taken in
  the opposite direction to those of element 0.
\<close>

theorem Box_Facets_twelve:
  "Box_Facets (Box qa qb) =
     Quad_Facets qa @ Quad_Facets qb
     @ concat (map (\<lambda>i. Quad_Facets (Quad (Quad_at qb ((4 - i) mod 4)) (Quad_at qb ((3 - i) mod 4))
                                           (Quad_at qa ((i + 1) mod 4)) (Quad_at qa (i mod 4))))
                [0 ..< 4])
   \<and> length (Box_Facets (Box qa qb)) = 12"
  by (simp add: Box_Facets_def Quad_at_def Quad_Facets_def upt_rec)



section \<open>NewBox\<close>

lemma flat_quad_Normal:
  "Facet_Normal (Quad_Facets flat_quad ! 0) = Point NaN NaN NaN"
  by (simp add: Quad_Facets_def Facet_Normal_def Point_sub_def Let_def f_ops flat_quad_def)

text \<open>
  C3, as stated, fails. The normal of the first facet of the degenerate quad has the Z
  component \<open>NaN\<close>: it is not negative and it is not positive, and \<open>NewBox\<close> returns a box
  all the same.
\<close>

theorem NewBox_not_negative_counterexample:
  "\<not> pz (Facet_Normal (Quad_Facets flat_quad ! 0)) < Fin 0
   \<and> \<not> pz (Facet_Normal (Quad_Facets flat_quad ! 0)) > Fin 0
   \<and> NewBox flat_quad flat_quad = Inr (Box flat_quad flat_quad)"
  by (simp add: NewBox_def flat_quad_Normal f_ops)

text \<open>
  C3, amended: \<open>NewBox(bottom, top)\<close> ends the process if and only if the Z component of
  the bottom quad's first-facet normal is a number (not \<open>NaN\<close>) that is not negative, or
  the Z component of the top quad's first-facet normal is a number that is not positive;
  the first check that fires gives the message. Otherwise it returns the box holding
  exactly the two given quads, unchanged.
\<close>

theorem NewBox_fatal_iff:
  "NewBox qa qb =
     (if \<not> is_NaN (pz (Facet_Normal (Quad_Facets qa ! 0)))
         \<and> \<not> pz (Facet_Normal (Quad_Facets qa ! 0)) < Fin 0
      then Inl (Fatal ''bad bottom normal'')
      else if \<not> is_NaN (pz (Facet_Normal (Quad_Facets qb ! 0)))
         \<and> \<not> pz (Facet_Normal (Quad_Facets qb ! 0)) > Fin 0
      then Inl (Fatal ''bad top normal'')
      else Inr (Box qa qb))"
  by (simp add: NewBox_def f_ge0_iff f_le0_iff)

text \<open>
  C10: when the cross product of a quad's first facet is the zero vector (a degenerate
  quad: the facet has area 0), the norm is 0 and the three components of the
  normal are \<open>NaN\<close>, neither \<open>z \<ge> 0\<close> nor \<open>z \<le> 0\<close> holds of its Z component, and
  \<open>NewBox\<close> does not reject the quad: given twice it is returned in a box, as the bottom
  quad it leaves the result to the check of the top quad, and as the top quad to the
  check of the bottom quad.
\<close>

theorem NewBox_degenerate_not_rejected:
  assumes "Facet_cross (Quad_Facets q ! 0) = Point (Fin 0) (Fin 0) (Fin 0)"
  shows "Facet_Normal (Quad_Facets q ! 0) = Point NaN NaN NaN
     \<and> \<not> pz (Facet_Normal (Quad_Facets q ! 0)) \<ge> Fin 0
     \<and> \<not> pz (Facet_Normal (Quad_Facets q ! 0)) \<le> Fin 0
     \<and> NewBox q q = Inr (Box q q)
     \<and> NewBox q qb = (if pz (Facet_Normal (Quad_Facets qb ! 0)) \<le> Fin 0
                       then Inl (Fatal ''bad top normal'') else Inr (Box q qb))
     \<and> NewBox qa q = (if pz (Facet_Normal (Quad_Facets qa ! 0)) \<ge> Fin 0
                       then Inl (Fatal ''bad bottom normal'') else Inr (Box qa q))"
proof -
  have n: "Facet_Normal (Quad_Facets q ! 0) = Point NaN NaN NaN"
    using assms by (simp add: Facet_Normal_cross f_ops)
  then show ?thesis
    by (simp add: NewBox_def f_ops)
qed

theorem NewBox_degenerate_witness:
  "Facet_cross (Quad_Facets flat_quad ! 0) = Point (Fin 0) (Fin 0) (Fin 0)
   \<and> Facet_Normal (Quad_Facets flat_quad ! 0) = Point NaN NaN NaN
   \<and> NewBox flat_quad flat_quad = Inr (Box flat_quad flat_quad)"
proof -
  have c: "Facet_cross (Quad_Facets flat_quad ! 0) = Point (Fin 0) (Fin 0) (Fin 0)"
    by (simp add: Facet_cross_def Quad_Facets_def Point_sub_def Let_def f_ops flat_quad_def)
  show ?thesis
    using NewBox_degenerate_not_rejected[OF c] c by blast
qed



section \<open>The reflect step\<close>

text \<open>
  C6: the reflect step of \<open>Kite\<close> (negate every X, swap vertex 0 with 3 and 1 with 2),
  applied twice to any four vertices, gives back the same vertices in the same order.
\<close>

theorem reflect_xy_involution: "reflect_xy (reflect_xy v) = v"
  by (simp add: reflect_xy_def uminus_float64_def f_neg_neg split: prod.split)



section \<open>The normals of a prism\<close>

lemma unit_quotients:
  fixes nx ny nz :: real
  assumes "sqrt (nx * nx + ny * ny + nz * nz) \<noteq> 0"
  shows "unit_vector (Point (Fin (nx / sqrt (nx * nx + ny * ny + nz * nz)))
                        (Fin (ny / sqrt (nx * nx + ny * ny + nz * nz)))
                        (Fin (nz / sqrt (nx * nx + ny * ny + nz * nz))))"
proof -
  define s where "s = nx * nx + ny * ny + nz * nz"
  have s0: "0 \<le> s" by (simp add: s_def)
  with assms have sp: "0 < s" by (simp add: s_def less_le)
  have "sqrt s * sqrt s = s" using s0 by simp
  then have "nx / sqrt s * (nx / sqrt s) + ny / sqrt s * (ny / sqrt s) + nz / sqrt s * (nz / sqrt s)
      = (nx * nx + ny * ny + nz * nz) / s"
    by (simp add: add_divide_distrib)
  also have "\<dots> = 1" using sp by (simp add: s_def)
  finally show ?thesis by (simp add: unit_vector_def s_def)
qed

lemma Facet_Normal_unit:
  fixes u1 u2 u3 v1 v2 v3 w1 w2 w3 :: real
  defines "nx \<equiv> (v2 - u2) * (w3 - u3) - (v3 - u3) * (w2 - u2)"
    and "ny \<equiv> (v3 - u3) * (w1 - u1) - (v1 - u1) * (w3 - u3)"
    and "nz \<equiv> (v1 - u1) * (w2 - u2) - (v2 - u2) * (w1 - u1)"
  assumes b: "list_all (\<lambda>c. \<bar>c\<bar> \<le> 2 ^ 200) [u1, u2, u3, v1, v2, v3, w1, w2, w3]"
    and n: "nx \<noteq> 0 \<or> ny \<noteq> 0 \<or> nz \<noteq> 0"
  shows "unit_vector (Facet_Normal (Facet (Point (Fin u1) (Fin u2) (Fin u3)) (Point (Fin v1) (Fin v2) (Fin v3))
                       (Point (Fin w1) (Fin w2) (Fin w3))))"
proof -
  have "nx * nx + ny * ny + nz * nz \<noteq> 0"
    using n
    by (smt (verit) mult_eq_0_iff zero_le_square add_nonneg_eq_0_iff add_nonneg_nonneg)
  then have "sqrt (nx * nx + ny * ny + nz * nz) \<noteq> 0" by simp
  moreover have "Facet_Normal (Facet (Point (Fin u1) (Fin u2) (Fin u3)) (Point (Fin v1) (Fin v2) (Fin v3))
                       (Point (Fin w1) (Fin w2) (Fin w3)))
     = (let n = sqrt (nx * nx + ny * ny + nz * nz)
      in if n = 0 then Point NaN NaN NaN else Point (Fin (nx / n)) (Fin (ny / n)) (Fin (nz / n)))"
    using b by (subst Facet_Normal_fin) (simp_all add: Let_def nx_def ny_def nz_def)
  ultimately show ?thesis
    using unit_quotients[of nx ny nz] by (simp add: Let_def)
qed

lemma normal_horizontal:
  fixes a b c d e f h :: real
  assumes b: "list_all (\<lambda>c. \<bar>c\<bar> \<le> 2 ^ 200) [a, b, c, d, e, f, h]"
    and n: "(c - a) * (f - b) - (d - b) * (e - a) \<noteq> 0"
  shows "Facet_Normal (Facet (Point (Fin a) (Fin b) (Fin h)) (Point (Fin c) (Fin d) (Fin h))
                             (Point (Fin e) (Fin f) (Fin h)))
         = Point (Fin 0) (Fin 0) (Fin (sgn ((c - a) * (f - b) - (d - b) * (e - a))))"
proof -
  define n where "n = (c - a) * (f - b) - (d - b) * (e - a)"
  have "n \<noteq> 0" using assms by (simp add: n_def)
  then have "n / \<bar>n\<bar> = sgn n" by (simp add: sgn_real_def)
  then show ?thesis
    using \<open>n \<noteq> 0\<close> b by (subst Facet_Normal_fin) (simp_all add: Let_def n_def)
qed

lemma normal_vertical:
  fixes a b c d z1 z2 :: real
  assumes "list_all (\<lambda>c. \<bar>c\<bar> \<le> 2 ^ 200) [a, b, c, d, z1, z2]"
    and "z1 \<noteq> z2" and "a \<noteq> c \<or> b \<noteq> d"
  shows "unit_vector (Facet_Normal (Facet (Point (Fin a) (Fin b) (Fin z1)) (Point (Fin c) (Fin d) (Fin z1))
                             (Point (Fin c) (Fin d) (Fin z2))))"
  using assms by (intro Facet_Normal_unit) auto

lemma unit_vector_z: "unit_vector (Point (Fin 0) (Fin 0) (Fin (sgn n))) = (n \<noteq> 0)"
  by (simp add: unit_vector_def sgn_real_def)

lemma cross2_nondeg:
  fixes a b c d e f :: real
  assumes "(c - a) * (f - b) - (d - b) * (e - a) \<noteq> 0"
  shows "(a \<noteq> c \<or> b \<noteq> d) \<and> (c \<noteq> e \<or> d \<noteq> f) \<and> (e \<noteq> a \<or> f \<noteq> b)"
  using assms by auto

lemma prism_normals:
  fixes x0 y0 x1 y1 x2 y2 x3 y3 z1 z2 :: real
  assumes b: "list_all (\<lambda>c. \<bar>c\<bar> \<le> 2 ^ 200) [x0, y0, x1, y1, x2, y2, x3, y3, z1, z2]"
    and z: "z1 \<noteq> z2"
    and n1: "(x1 - x0) * (y2 - y0) - (y1 - y0) * (x2 - x0) \<noteq> 0"
    and n2: "(x3 - x2) * (y0 - y2) - (y3 - y2) * (x0 - x2) \<noteq> 0"
  shows "list_all (\<lambda>f. unit_vector (Facet_Normal f))
     (Box_Facets (prism x0 y0 x1 y1 x2 y2 x3 y3 z1 z2))"
proof -
  have n3: "(x3 - x0) * (y2 - y0) - (y3 - y0) * (x2 - x0) \<noteq> 0"
    using n2 by (simp add: algebra_simps)
  have n4: "(x1 - x2) * (y0 - y2) - (y1 - y2) * (x0 - x2) \<noteq> 0"
    using n1 by (simp add: algebra_simps)
  from cross2_nondeg[OF n1] cross2_nondeg[OF n2]
  have e01: "x0 \<noteq> x1 \<or> y0 \<noteq> y1" and e12: "x1 \<noteq> x2 \<or> y1 \<noteq> y2"
    and e23: "x2 \<noteq> x3 \<or> y2 \<noteq> y3" and e30: "x3 \<noteq> x0 \<or> y3 \<noteq> y0"
    and e10: "x1 \<noteq> x0 \<or> y1 \<noteq> y0" and e21: "x2 \<noteq> x1 \<or> y2 \<noteq> y1"
    and e32: "x3 \<noteq> x2 \<or> y3 \<noteq> y2" and e03: "x0 \<noteq> x3 \<or> y0 \<noteq> y3"
    by auto
  have z': "z2 \<noteq> z1" using z by simp
  have h: "unit_vector (Facet_Normal (Facet (Point (Fin a) (Fin b) (Fin h)) (Point (Fin c) (Fin d) (Fin h))
                             (Point (Fin e) (Fin f) (Fin h))))"
    if "list_all (\<lambda>c. \<bar>c\<bar> \<le> 2 ^ 200) [a, b, c, d, e, f, h]"
      and "(c - a) * (f - b) - (d - b) * (e - a) \<noteq> 0" for a b c d e f h :: real
    unfolding normal_horizontal[OF that] unit_vector_z by (rule that(2))
  have c0: "unit_vector (Facet_Normal
      (Facet (Point (Fin x0) (Fin y0) (Fin z1)) (Point (Fin x1) (Fin y1) (Fin z1))
             (Point (Fin x2) (Fin y2) (Fin z1))))"
    using b by (intro h[OF _ n1]) simp
  have c1: "unit_vector (Facet_Normal
      (Facet (Point (Fin x2) (Fin y2) (Fin z1)) (Point (Fin x3) (Fin y3) (Fin z1))
             (Point (Fin x0) (Fin y0) (Fin z1))))"
    using b by (intro h[OF _ n2]) simp
  have c2: "unit_vector (Facet_Normal
      (Facet (Point (Fin x0) (Fin y0) (Fin z2)) (Point (Fin x3) (Fin y3) (Fin z2))
             (Point (Fin x2) (Fin y2) (Fin z2))))"
    using b by (intro h[OF _ n3]) simp
  have c3: "unit_vector (Facet_Normal
      (Facet (Point (Fin x2) (Fin y2) (Fin z2)) (Point (Fin x1) (Fin y1) (Fin z2))
             (Point (Fin x0) (Fin y0) (Fin z2))))"
    using b by (intro h[OF _ n4]) simp
  have s0a: "unit_vector (Facet_Normal
      (Facet (Point (Fin x0) (Fin y0) (Fin z2)) (Point (Fin x1) (Fin y1) (Fin z2))
             (Point (Fin x1) (Fin y1) (Fin z1))))"
    using b by (intro normal_vertical[OF _ z' e01]) simp
  have s0b: "unit_vector (Facet_Normal
      (Facet (Point (Fin x1) (Fin y1) (Fin z1)) (Point (Fin x0) (Fin y0) (Fin z1))
             (Point (Fin x0) (Fin y0) (Fin z2))))"
    using b by (intro normal_vertical[OF _ z e10]) simp
  have s1a: "unit_vector (Facet_Normal
      (Facet (Point (Fin x1) (Fin y1) (Fin z2)) (Point (Fin x2) (Fin y2) (Fin z2))
             (Point (Fin x2) (Fin y2) (Fin z1))))"
    using b by (intro normal_vertical[OF _ z' e12]) simp
  have s1b: "unit_vector (Facet_Normal
      (Facet (Point (Fin x2) (Fin y2) (Fin z1)) (Point (Fin x1) (Fin y1) (Fin z1))
             (Point (Fin x1) (Fin y1) (Fin z2))))"
    using b by (intro normal_vertical[OF _ z e21]) simp
  have s2a: "unit_vector (Facet_Normal
      (Facet (Point (Fin x2) (Fin y2) (Fin z2)) (Point (Fin x3) (Fin y3) (Fin z2))
             (Point (Fin x3) (Fin y3) (Fin z1))))"
    using b by (intro normal_vertical[OF _ z' e23]) simp
  have s2b: "unit_vector (Facet_Normal
      (Facet (Point (Fin x3) (Fin y3) (Fin z1)) (Point (Fin x2) (Fin y2) (Fin z1))
             (Point (Fin x2) (Fin y2) (Fin z2))))"
    using b by (intro normal_vertical[OF _ z e32]) simp
  have s3a: "unit_vector (Facet_Normal
      (Facet (Point (Fin x3) (Fin y3) (Fin z2)) (Point (Fin x0) (Fin y0) (Fin z2))
             (Point (Fin x0) (Fin y0) (Fin z1))))"
    using b by (intro normal_vertical[OF _ z' e30]) simp
  have s3b: "unit_vector (Facet_Normal
      (Facet (Point (Fin x0) (Fin y0) (Fin z1)) (Point (Fin x3) (Fin y3) (Fin z1))
             (Point (Fin x3) (Fin y3) (Fin z2))))"
    using b by (intro normal_vertical[OF _ z e03]) simp
  show ?thesis
    by (simp add: prism_def Box_Facets_def Quad_Facets_def Let_def c0 c1 c2 c3 s0a s0b s1a s1b s2a s2b s3a s3b)
qed

text \<open>
  \<open>NewBox\<close> accepts the two quads of a prism whose bottom is wound clockwise seen from
  above; the normals of the four cap facets are then vertical.
\<close>

lemma prism_caps:
  fixes x0 y0 x1 y1 x2 y2 x3 y3 z1 z2 :: real
  assumes b: "list_all (\<lambda>c. \<bar>c\<bar> \<le> 2 ^ 200) [x0, y0, x1, y1, x2, y2, x3, y3, z1, z2]"
    and n1: "(x1 - x0) * (y2 - y0) - (y1 - y0) * (x2 - x0) < 0"
    and n2: "(x3 - x2) * (y0 - y2) - (y3 - y2) * (x0 - x2) < 0"
  shows "map Facet_Normal (take 4 (Box_Facets (prism x0 y0 x1 y1 x2 y2 x3 y3 z1 z2)))
     = [Point (Fin 0) (Fin 0) (Fin (- 1)), Point (Fin 0) (Fin 0) (Fin (- 1)),
        Point (Fin 0) (Fin 0) (Fin 1), Point (Fin 0) (Fin 0) (Fin 1)]"
    and "NewBox (b0 (prism x0 y0 x1 y1 x2 y2 x3 y3 z1 z2)) (b1 (prism x0 y0 x1 y1 x2 y2 x3 y3 z1 z2))
     = Inr (prism x0 y0 x1 y1 x2 y2 x3 y3 z1 z2)"
proof -
  have n3: "0 < (x3 - x0) * (y2 - y0) - (y3 - y0) * (x2 - x0)"
    using n2 by (simp add: algebra_simps)
  have n4: "0 < (x1 - x2) * (y0 - y2) - (y1 - y2) * (x0 - x2)"
    using n1 by (simp add: algebra_simps)
  have h: "Facet_Normal (Facet (Point (Fin a) (Fin b) (Fin h)) (Point (Fin c) (Fin d) (Fin h))
                             (Point (Fin e) (Fin f) (Fin h)))
         = Point (Fin 0) (Fin 0) (Fin (- 1))"
    if "list_all (\<lambda>c. \<bar>c\<bar> \<le> 2 ^ 200) [a, b, c, d, e, f, h]"
      and "(c - a) * (f - b) - (d - b) * (e - a) < 0"
    for a b c d e f h :: real
    using that normal_horizontal[of a b c d e f h] by simp
  have h': "Facet_Normal (Facet (Point (Fin a) (Fin b) (Fin h)) (Point (Fin c) (Fin d) (Fin h))
                             (Point (Fin e) (Fin f) (Fin h)))
         = Point (Fin 0) (Fin 0) (Fin 1)"
    if "list_all (\<lambda>c. \<bar>c\<bar> \<le> 2 ^ 200) [a, b, c, d, e, f, h]"
      and "0 < (c - a) * (f - b) - (d - b) * (e - a)"
    for a b c d e f h :: real
    using that normal_horizontal[of a b c d e f h] by simp
  have c0: "Facet_Normal (Facet (Point (Fin x0) (Fin y0) (Fin z1)) (Point (Fin x1) (Fin y1) (Fin z1))
             (Point (Fin x2) (Fin y2) (Fin z1))) = Point (Fin 0) (Fin 0) (Fin (- 1))"
    using b by (intro h[OF _ n1]) simp
  have c1: "Facet_Normal (Facet (Point (Fin x2) (Fin y2) (Fin z1)) (Point (Fin x3) (Fin y3) (Fin z1))
             (Point (Fin x0) (Fin y0) (Fin z1))) = Point (Fin 0) (Fin 0) (Fin (- 1))"
    using b by (intro h[OF _ n2]) simp
  have c2: "Facet_Normal (Facet (Point (Fin x0) (Fin y0) (Fin z2)) (Point (Fin x3) (Fin y3) (Fin z2))
             (Point (Fin x2) (Fin y2) (Fin z2))) = Point (Fin 0) (Fin 0) (Fin 1)"
    using b by (intro h'[OF _ n3]) simp
  have c3: "Facet_Normal (Facet (Point (Fin x2) (Fin y2) (Fin z2)) (Point (Fin x1) (Fin y1) (Fin z2))
             (Point (Fin x0) (Fin y0) (Fin z2))) = Point (Fin 0) (Fin 0) (Fin 1)"
    using b by (intro h'[OF _ n4]) simp
  show "map Facet_Normal (take 4 (Box_Facets (prism x0 y0 x1 y1 x2 y2 x3 y3 z1 z2)))
     = [Point (Fin 0) (Fin 0) (Fin (- 1)), Point (Fin 0) (Fin 0) (Fin (- 1)),
        Point (Fin 0) (Fin 0) (Fin 1), Point (Fin 0) (Fin 0) (Fin 1)]"
    by (simp add: prism_def Box_Facets_def Quad_Facets_def Let_def c0 c1 c2 c3)
  show "NewBox (b0 (prism x0 y0 x1 y1 x2 y2 x3 y3 z1 z2)) (b1 (prism x0 y0 x1 y1 x2 y2 x3 y3 z1 z2))
     = Inr (prism x0 y0 x1 y1 x2 y2 x3 y3 z1 z2)"
    by (simp add: prism_def NewBox_def Quad_Facets_def c0 c2 f_ops)
qed


section \<open>Kite\<close>

lemma Kite_xy_reflect:
  "Kite_xy loc r inset True = reflect_xy (Kite_xy loc r inset False)"
  by (simp add: Kite_xy_def Let_def split: prod.splits)

lemma kite_cross:
  "(kite_x lx r i x1 y1 - kite_x lx r i x0 y0) * (kite_y ly r i x2 y2 - kite_y ly r i x0 y0)
   - (kite_y ly r i x1 y1 - kite_y ly r i x0 y0) * (kite_x lx r i x2 y2 - kite_x lx r i x0 y0)
   = (12 * kite_k i)\<^sup>2 * ((x1 - x0) * (y2 - y0) - (y1 - y0) * (x2 - x0))"
proof -
  define c s k where csk: "c = cos (real_of_int r / (180 / pi))"
    "s = sin (real_of_int r / (180 / pi))" "k = kite_k i"
  have cs: "c * c + s * s = 1"
    using sin_cos_squared_add3[of "real_of_int r / (180 / pi)"] by (simp add: csk)
  have "(kite_x lx r i x1 y1 - kite_x lx r i x0 y0) * (kite_y ly r i x2 y2 - kite_y ly r i x0 y0)
   - (kite_y ly r i x1 y1 - kite_y ly r i x0 y0) * (kite_x lx r i x2 y2 - kite_x lx r i x0 y0)
   = (12 * k)\<^sup>2 * ((x1 - x0) * (y2 - y0) - (y1 - y0) * (x2 - x0)) * (c * c + s * s)"
    unfolding kite_x_def kite_y_def csk[symmetric]
    by (simp add: algebra_simps power2_eq_square)
  then show ?thesis by (simp add: cs csk)
qed

lemma Kite_xy_val:
  assumes "\<bar>lx\<bar> \<le> 2 ^ m" "\<bar>ly\<bar> \<le> 2 ^ m" "\<bar>i\<bar> \<le> 2 ^ m" "\<bar>r\<bar> \<le> 2 ^ 63" "m \<le> 300"
  shows "case Kite_xy (Fin lx, Fin ly) r (Fin i) False of (x0, y0, x1, y1, x2, y2, x3, y3) \<Rightarrow>
      finite_val (m + 20) (kite_x lx r i 0 0) x0 \<and> finite_val (m + 20) (kite_y ly r i 0 0) y0
    \<and> finite_val (m + 20) (kite_x lx r i 0 (sqrt 3)) x1 \<and> finite_val (m + 20) (kite_y ly r i 0 (sqrt 3)) y1
    \<and> finite_val (m + 20) (kite_x lx r i 1 (sqrt 3)) x2 \<and> finite_val (m + 20) (kite_y ly r i 1 (sqrt 3)) y2
    \<and> finite_val (m + 20) (kite_x lx r i (3 / 2) (sqrt 3 / 2)) x3
    \<and> finite_val (m + 20) (kite_y ly r i (3 / 2) (sqrt 3 / 2)) y3"
proof -
  note v = assms(1-3)[THEN finite_val_Fin] finite_val_angle[OF assms(4)]
  have eq: "kite_k i = (if 0 < i then 1 - i else 1)" "kite_ox i = (if 0 < i then i * (1 / 2) else 0)"
    "kite_oy i = (if 0 < i then i * (sqrt 3 / 2) else 0)"
    by (simp_all add: kite_k_def kite_ox_def kite_oy_def)
  show ?thesis
    using assms(5)
    apply (simp add: Kite_xy_def Let_def less_float64_def)
    apply (intro conjI impI; rule finite_valI)
    apply (rule finite_val_rules v | (simp; fail)
        | (simp add: kite_x_def kite_y_def eq, (simp add: algebra_simps diff_divide_distrib)?; fail))+
    done
qed

lemma kite_k_pos: "kite_k i \<noteq> 0 \<Longrightarrow> 0 < (12 * kite_k i)\<^sup>2 * sqrt 3"
  by simp

lemma pow_le_200: "n \<le> 200 \<Longrightarrow> \<bar>a\<bar> \<le> 2 ^ n \<Longrightarrow> \<bar>a::real\<bar> \<le> 2 ^ 200"
proof -
  assume "n \<le> 200" "\<bar>a\<bar> \<le> 2 ^ n"
  moreover from this have "(2::real) ^ n \<le> 2 ^ 200" by (intro power_increasing) simp_all
  ultimately show ?thesis by linarith
qed

lemma prism_points_finite:
  "list_all (\<lambda>f. is_Fin_Point (f0 f) \<and> is_Fin_Point (f1 f) \<and> is_Fin_Point (f2 f))
     (Box_Facets (prism x0 y0 x1 y1 x2 y2 x3 y3 z1 z2))"
  by (simp add: prism_def Box_Facets_def Quad_Facets_def Let_def is_Fin_Point_def)

text \<open>
  For finite arguments of moderate size and an inset other than 1 and -0.2, \<open>Kite\<close>
  returns the box \<open>kite_prism\<close>: the cross product of the first triangle of the bottom
  quad is \<open>-sqrt 3\<close> (or \<open>-sqrt 3 / 2\<close> when reflected) times the square of the scale, so
  \<open>NewBox\<close> accepts the quads. The normals of its twelve facets are unit vectors, those
  of the four cap facets vertical.
\<close>

lemma Kite_fin_normals:
  assumes bnd: "\<bar>lx\<bar> \<le> 2 ^ 10" "\<bar>ly\<bar> \<le> 2 ^ 10" "\<bar>i\<bar> \<le> 2 ^ 10" "\<bar>r\<bar> \<le> 2 ^ 63"
    and k: "kite_k i \<noteq> 0" and h: "2 / 10 + i \<noteq> 0"
  shows "Kite (Fin lx, Fin ly) r (Fin i) rf = Inr (kite_prism lx ly r i rf)"
    and "list_all (\<lambda>f. unit_vector (Facet_Normal f)) (Box_Facets (kite_prism lx ly r i rf))"
    and "map Facet_Normal (take 4 (Box_Facets (kite_prism lx ly r i rf)))
       = [Point (Fin 0) (Fin 0) (Fin (- 1)), Point (Fin 0) (Fin 0) (Fin (- 1)),
          Point (Fin 0) (Fin 0) (Fin 1), Point (Fin 0) (Fin 0) (Fin 1)]"
proof -
  define K where "K = (12 * kite_k i)\<^sup>2"
  have K: "0 < K * sqrt 3" using kite_k_pos[OF k] by (simp add: K_def)
  note kc = kite_cross[of lx r i _ _ _ _ ly, folded K_def]
  define x0 y0 x1 y1 x2 y2 x3 y3 z where xy:
    "x0 = kite_x lx r i 0 0" "y0 = kite_y ly r i 0 0"
    "x1 = kite_x lx r i 0 (sqrt 3)" "y1 = kite_y ly r i 0 (sqrt 3)"
    "x2 = kite_x lx r i 1 (sqrt 3)" "y2 = kite_y ly r i 1 (sqrt 3)"
    "x3 = kite_x lx r i (3 / 2) (sqrt 3 / 2)" "y3 = kite_y ly r i (3 / 2) (sqrt 3 / 2)"
    "z = (2 / 10 + i) * 12"
  have z: "(0::real) \<noteq> z" using h by (simp add: xy)
  have c: "finite_val 0 (2 / 10) (Fin 0.2)" by (simp add: finite_val_def)
  have "finite_val 20 z ((Fin 0.2 + Fin i) * unit)"
    unfolding xy
    by (rule finite_valI, (rule finite_val_rules c bnd(3)[THEN finite_val_Fin] | (simp; fail))+)
  then have hv: "(Fin (1 / 5) + Fin i) * unit = Fin z" and zb: "\<bar>z\<bar> \<le> 2 ^ 200"
    by (simp_all add: finite_val_def pow_le_200[of 20])
  from Kite_xy_val[OF bnd]
  have v: "Kite_xy (Fin lx, Fin ly) r (Fin i) False
      = (Fin x0, Fin y0, Fin x1, Fin y1, Fin x2, Fin y2, Fin x3, Fin y3)"
    and b: "list_all (\<lambda>c. \<bar>c\<bar> \<le> 2 ^ 200) [x0, y0, x1, y1, x2, y2, x3, y3]"
    by (auto simp: finite_val_def xy intro: pow_le_200[of 30])
  have a1: "(x1 - x0) * (y2 - y0) - (y1 - y0) * (x2 - x0) < 0"
    unfolding xy using kc[of 0 "sqrt 3" 0 0 1 "sqrt 3"] K by simp
  have a2: "(x3 - x2) * (y0 - y2) - (y3 - y2) * (x0 - x2) < 0"
    unfolding xy using kc[of "3 / 2" "sqrt 3 / 2" 1 "sqrt 3" 0 0] K by (simp add: algebra_simps)
  have b1: "(- x2 - - x3) * (y1 - y3) - (y2 - y3) * (- x1 - - x3) < 0"
    unfolding xy using kc[of 1 "sqrt 3" "3 / 2" "sqrt 3 / 2" 0 "sqrt 3"] K by (simp add: algebra_simps)
  have b2: "(- x0 - - x1) * (y3 - y1) - (y0 - y1) * (- x3 - - x1) < 0"
    unfolding xy using kc[of 0 0 0 "sqrt 3" "3 / 2" "sqrt 3 / 2"] K by (simp add: algebra_simps)
  have "Kite (Fin lx, Fin ly) r (Fin i) rf = Inr (kite_prism lx ly r i rf)
     \<and> list_all (\<lambda>f. unit_vector (Facet_Normal f)) (Box_Facets (kite_prism lx ly r i rf))
     \<and> map Facet_Normal (take 4 (Box_Facets (kite_prism lx ly r i rf)))
       = [Point (Fin 0) (Fin 0) (Fin (- 1)), Point (Fin 0) (Fin 0) (Fin (- 1)),
          Point (Fin 0) (Fin 0) (Fin 1), Point (Fin 0) (Fin 0) (Fin 1)]"
  proof (cases rf)
    case False
    define p where "p = prism x0 y0 x1 y1 x2 y2 x3 y3 0 z"
    have p: "kite_prism lx ly r i rf = p"
      by (simp add: False kite_prism_def p_def xy)
    have bb: "list_all (\<lambda>c. \<bar>c\<bar> \<le> 2 ^ 200) [x0, y0, x1, y1, x2, y2, x3, y3, 0, z]"
      using b zb by simp
    have n1: "(x1 - x0) * (y2 - y0) - (y1 - y0) * (x2 - x0) \<noteq> 0"
      and n2: "(x3 - x2) * (y0 - y2) - (y3 - y2) * (x0 - x2) \<noteq> 0"
      using a1 a2 by simp_all
    have "Kite (Fin lx, Fin ly) r (Fin i) rf = NewBox (b0 p) (b1 p)"
      by (simp add: False Kite_def v NewQuad_def hv p_def prism_def Let_def)
    then have "Kite (Fin lx, Fin ly) r (Fin i) rf = Inr p"
      unfolding p_def prism_caps(2)[OF bb a1 a2] .
    then show ?thesis
      using prism_normals[OF bb z n1 n2] prism_caps(1)[OF bb a1 a2]
      by (simp add: p p_def)
  next
    case True
    define p where "p = prism (- x3) y3 (- x2) y2 (- x1) y1 (- x0) y0 0 z"
    have p: "kite_prism lx ly r i rf = p"
      by (simp add: True kite_prism_def p_def xy)
    have bb: "list_all (\<lambda>c. \<bar>c\<bar> \<le> 2 ^ 200) [- x3, y3, - x2, y2, - x1, y1, - x0, y0, 0, z]"
      using b zb by simp
    have n1: "(- x2 - - x3) * (y1 - y3) - (y2 - y3) * (- x1 - - x3) \<noteq> 0"
      and n2: "(- x0 - - x1) * (y3 - y1) - (y0 - y1) * (- x3 - - x1) \<noteq> 0"
      using b1 b2 by simp_all
    have "Kite (Fin lx, Fin ly) r (Fin i) rf = NewBox (b0 p) (b1 p)"
      by (simp add: True Kite_def Kite_xy_reflect v reflect_xy_def uminus_float64_def NewQuad_def
          hv p_def prism_def Let_def)
    then have "Kite (Fin lx, Fin ly) r (Fin i) rf = Inr p"
      unfolding p_def prism_caps(2)[OF bb b1 b2] .
    then show ?thesis
      using prism_normals[OF bb z n1 n2] prism_caps(1)[OF bb b1 b2]
      by (simp add: p p_def)
  qed
  then show "Kite (Fin lx, Fin ly) r (Fin i) rf = Inr (kite_prism lx ly r i rf)"
    and "list_all (\<lambda>f. unit_vector (Facet_Normal f)) (Box_Facets (kite_prism lx ly r i rf))"
    and "map Facet_Normal (take 4 (Box_Facets (kite_prism lx ly r i rf)))
       = [Point (Fin 0) (Fin 0) (Fin (- 1)), Point (Fin 0) (Fin 0) (Fin (- 1)),
          Point (Fin 0) (Fin 0) (Fin 1), Point (Fin 0) (Fin 0) (Fin 1)]"
    by simp_all
qed

text \<open>
  An inset of \<open>2^256\<close> (about \<open>1.16e77\<close>): the vertices are finite, the cross product of
  the first triangle of the bottom quad is \<open>-144 * sqrt 3 * (1 - 2^256)^2\<close>, finite as
  well, but its square overflows. The norm is infinite, the Z component of the normal is
  0, and \<open>0 \<ge> 0\<close> holds.
\<close>

lemma float_huge_le: "float_huge \<le> 2 ^ 1024"
  by (simp add: float_huge_def)

lemma Kite_overflow:
  "Kite (Fin 0, Fin 0) 0 (Fin (2 ^ 256)) False = Inl (Fatal ''bad bottom normal'')"
proof -
  define I :: real where "I = 2 ^ 256"
  define k where "k = 1 - I"
  have I: "0 < I" "\<bar>I\<bar> \<le> 2 ^ 256" by (simp_all add: I_def)
  have kk: "kite_k I = k" "kite_ox I = I * (1 / 2)" "kite_oy I = I * (sqrt 3 / 2)"
    using I by (simp_all add: kite_k_def kite_ox_def kite_oy_def k_def)
  define x0 y0 y1 x2 where xy: "x0 = 6 * I" "y0 = 6 * sqrt 3 * I" "y1 = 12 * sqrt 3 * k + 6 * sqrt 3 * I"
    "x2 = 12 * k + 6 * I"
  have kx: "kite_x 0 0 I 0 0 = x0" "kite_y 0 0 I 0 0 = y0"
    "kite_x 0 0 I 0 (sqrt 3) = x0" "kite_y 0 0 I 0 (sqrt 3) = y1"
    "kite_x 0 0 I 1 (sqrt 3) = x2" "kite_y 0 0 I 1 (sqrt 3) = y1"
    by (simp_all add: kite_x_def kite_y_def kk xy algebra_simps)
  have "\<bar>0::real\<bar> \<le> 2 ^ 256" "\<bar>0::int\<bar> \<le> 2 ^ 63" "(256::nat) \<le> 300" by simp_all
  from Kite_xy_val[OF this(1) this(1) I(2) this(2) this(3)]
  obtain x3 y3 where v: "Kite_xy (Fin 0, Fin 0) 0 (Fin I) False
      = (Fin x0, Fin y0, Fin x0, Fin y1, Fin x2, Fin y1, x3, y3)"
    and b: "finite_val 276 x0 (Fin x0)" "finite_val 276 y0 (Fin y0)" "finite_val 276 y1 (Fin y1)"
      "finite_val 276 x2 (Fin x2)"
    by (auto simp: kx finite_val_def)
  let ?f = "Facet (Point (Fin x0) (Fin y0) (Fin 0)) (Point (Fin x0) (Fin y1) (Fin 0))
                  (Point (Fin x2) (Fin y1) (Fin 0))"
  define nz where "nz = - (144 * sqrt 3 * k\<^sup>2)"
  have cx: "finite_val 600 0 (px (Facet_cross ?f))"
    unfolding Facet_cross_def Point_sub_def Let_def Point.sel Facet.sel
    by (rule finite_valI, (rule finite_val_rules b | (simp; fail))+)
  have cy: "finite_val 600 0 (py (Facet_cross ?f))"
    unfolding Facet_cross_def Point_sub_def Let_def Point.sel Facet.sel
    by (rule finite_valI, (rule finite_val_rules b | (simp; fail))+)
  have cz: "finite_val 600 nz (pz (Facet_cross ?f))"
    unfolding Facet_cross_def Point_sub_def Let_def Point.sel Facet.sel
    by (rule finite_valI, (rule finite_val_rules b | (simp; fail)
        | (simp add: xy nz_def power2_eq_square algebra_simps; fail))+)
  have c: "Facet_cross ?f = Point (Fin 0) (Fin 0) (Fin nz)"
    using cx cy cz by (cases "Facet_cross ?f") (simp add: finite_val_def)
  define P Q :: real where PQ: "P = (2 ^ 255) ^ 4" "Q = (I - 1) ^ 4"
  have "2 ^ 255 \<le> I - 1" by (simp add: I_def)
  then have "P \<le> Q" unfolding PQ by (intro power_mono) simp_all
  moreover have "0 \<le> P" by (simp add: PQ)
  moreover have "nz * nz = 62208 * Q"
  proof -
    have "nz * nz = 20736 * (sqrt 3 * sqrt 3) * (I - 1) ^ 4"
      unfolding nz_def k_def by algebra
    then show ?thesis by (simp add: PQ)
  qed
  moreover have "(2::real) ^ 1024 = 16 * P" by (simp add: PQ power_mult[symmetric])
  ultimately have "2 ^ 1024 \<le> nz * nz" by linarith
  with float_huge_le have "float_huge \<le> nz * nz" by linarith
  then have ov: "Fin nz * Fin nz = PInf"
    by (simp add: f_ops overflow_def)
  have "pz (Facet_Normal ?f) = Fin 0"
    unfolding Facet_Normal_cross c by (simp add: Let_def ov) (simp add: f_ops)
  then have "Kite (Fin 0, Fin 0) 0 (Fin I) False = Inl (Fatal ''bad bottom normal'')"
    by (simp add: Kite_def v NewQuad_def NewBox_def Quad_Facets_def Let_def)
      (simp add: f_ops)
  then show ?thesis unfolding I_def .
qed

text \<open>
  C7, as stated, fails: \<open>Kite\<close> does not return a box for every non-negative inset. With
  position \<open>(0, 0)\<close>, rotation 0, no reflection and the inset \<open>2^256\<close>, which is not
  negative, \<open>NewBox\<close> rejects the bottom quad and the process ends with
  \<open>bad bottom normal\<close>.
\<close>

theorem Kite_inset_overflow_counterexample:
  "Fin 0 \<le> Fin (2 ^ 256)
   \<and> Kite (Fin 0, Fin 0) 0 (Fin (2 ^ 256)) False = Inl (Fatal ''bad bottom normal'')"
  by (rule conjI, simp add: f_ops, rule Kite_overflow)

text \<open>
  C7, amended: for every position, rotation, inset and reflect flag, \<open>Kite\<close> hands to
  \<open>NewBox\<close> a bottom quad that lists the transformed vertices \<open>(x0, y0), (x1, y1),
  (x2, y2), (x3, y3)\<close> in this order at \<open>Z = 0\<close>, and a top quad that lists the same
  vertices backwards from the same first vertex, \<open>(x0, y0), (x3, y3), (x2, y2),
  (x1, y1)\<close>, at \<open>Z = (0.2 + inset) * unit\<close>. What \<open>Kite\<close> returns is what \<open>NewBox\<close>
  returns for them: the box of exactly these two quads, bottom first, or the end of the
  process with one of the two messages of \<open>NewBox\<close>. It is the box whenever the position
  is finite and at most \<open>2^10\<close> in magnitude, the rotation an int of Go and the inset
  between 0 and \<open>1/2\<close>.
\<close>

theorem Kite_quads:
  "Kite loc r inset rf =
     (case Kite_xy loc r inset rf of (x0, y0, x1, y1, x2, y2, x3, y3) \<Rightarrow>
        NewBox (Quad (Point x0 y0 (Fin 0)) (Point x1 y1 (Fin 0))
                     (Point x2 y2 (Fin 0)) (Point x3 y3 (Fin 0)))
               (Quad (Point x0 y0 ((Fin 0.2 + inset) * unit)) (Point x3 y3 ((Fin 0.2 + inset) * unit))
                     (Point x2 y2 ((Fin 0.2 + inset) * unit)) (Point x1 y1 ((Fin 0.2 + inset) * unit))))
   \<and> (case Kite loc r inset rf of
         Inl e \<Rightarrow> e = Fatal ''bad bottom normal'' \<or> e = Fatal ''bad top normal''
       | Inr b \<Rightarrow>
           (case Kite_xy loc r inset rf of (x0, y0, x1, y1, x2, y2, x3, y3) \<Rightarrow>
              b = Box (Quad (Point x0 y0 (Fin 0)) (Point x1 y1 (Fin 0))
                            (Point x2 y2 (Fin 0)) (Point x3 y3 (Fin 0)))
                      (Quad (Point x0 y0 ((Fin 0.2 + inset) * unit)) (Point x3 y3 ((Fin 0.2 + inset) * unit))
                            (Point x2 y2 ((Fin 0.2 + inset) * unit)) (Point x1 y1 ((Fin 0.2 + inset) * unit)))))
   \<and> (\<forall>lx ly i. loc = (Fin lx, Fin ly) \<and> inset = Fin i
         \<and> \<bar>lx\<bar> \<le> 2 ^ 10 \<and> \<bar>ly\<bar> \<le> 2 ^ 10 \<and> \<bar>r\<bar> \<le> 2 ^ 63 \<and> 0 \<le> i \<and> i \<le> 1 / 2
         \<longrightarrow> (\<exists>b. Kite loc r inset rf = Inr b))"
proof -
  obtain a b c d e f g h where v: "Kite_xy loc r inset rf = (a, b, c, d, e, f, g, h)"
    by (metis prod.exhaust)
  have "\<exists>b. Kite (Fin lx, Fin ly) r (Fin i) rf = Inr b"
    if "\<bar>lx\<bar> \<le> 2 ^ 10" "\<bar>ly\<bar> \<le> 2 ^ 10" "\<bar>r\<bar> \<le> 2 ^ 63" "0 \<le> i" "i \<le> 1 / 2" for lx ly i
  proof -
    have "\<bar>i\<bar> \<le> 2 ^ 10" "kite_k i \<noteq> 0" "2 / 10 + i \<noteq> 0"
      using that(4,5) by (simp_all add: kite_k_def)
    from Kite_fin_normals(1)[OF that(1,2) this(1) that(3) this(2,3)] show ?thesis
      by blast
  qed
  then show ?thesis
    by (simp add: Kite_def v Let_def NewQuad_def NewBox_def)
qed

theorem Kite_quads_witness:
  "\<bar>0::real\<bar> \<le> 2 ^ 10 \<and> \<bar>- 60::int\<bar> \<le> 2 ^ 63 \<and> (0::real) \<le> 1 / 2
   \<and> (\<exists>b. Kite (Fin 0, Fin 0) (- 60) (Fin 0) False = Inr b)"
  using Kite_quads[where loc = "(Fin 0, Fin 0)" and r = "- 60" and inset = "Fin 0" and rf = False,
      THEN conjunct2, THEN conjunct2]
  by simp


section \<open>The footprint\<close>

text \<open>
  The computation over the arithmetic of the model is \<open>Kite_xy\<close>, and the arithmetic of
  the model has the laws of \<open>exact_at_zero\<close>.
\<close>

lemma on_float64:
  "rad_on float64_arith = rad" "sqrt3_on float64_arith = sqrt3" "cos30_on float64_arith = cos30"
  "sin30_on float64_arith = sin30" "unit_on float64_arith = unit"
  by (simp_all add: float64_arith_def rad_on_def sqrt3_on_def cos30_on_def sin30_on_def unit_on_def
      rad_def sqrt3_def cos30_def sin30_def unit_def math_Pi_def)

lemma Kite_xy_on_float64: "Kite_xy_on float64_arith loc r inset rf = Kite_xy loc r inset rf"
  by (simp add: Kite_xy_on_def Kite_xy_def float64_arith_def rad_on_def sqrt3_on_def cos30_on_def
      sin30_on_def unit_on_def rad_def sqrt3_def cos30_def sin30_def unit_def math_Pi_def
      reflect_xy_def Let_def)

lemma footprint_float64:
  "footprint_on float64_arith =
     (Fin 0 * unit, Fin 0 * unit, Fin 0 * unit, sqrt3 * unit, Fin 1 * unit, sqrt3 * unit,
      sqrt3 * cos30 * unit, sqrt3 * sin30 * unit)"
  by (simp add: footprint_on_def on_float64) (simp add: float64_arith_def)

lemma finite_val_exact:
  assumes "finite_val n a v" and "n \<le> 1000"
  shows "v * Fin 1 = v \<and> v * Fin 0 = Fin 0 \<and> v - Fin 0 = v \<and> Fin 0 + v = v \<and> v + Fin 0 = v"
proof -
  have "\<bar>a\<bar> \<le> 2 ^ n" "v = Fin a"
    using assms by (simp_all add: finite_val_def)
  moreover have "(2::real) ^ n \<le> 2 ^ 1000"
    using assms(2) by (intro power_increasing) simp_all
  ultimately have "\<bar>a\<bar> \<le> 2 ^ 1000" by linarith
  then have "overflow a = Fin a" by (rule overflow_Fin)
  then show ?thesis by (simp add: \<open>v = Fin a\<close> f_ops)
qed

lemma footprint_vals:
  "finite_val 5 (sqrt 3 * 12) (sqrt3 * unit)" "finite_val 4 (1 * 12) (Fin 1 * unit)"
  "finite_val 5 (sqrt 3 * (sqrt 3 / 2) * 12) (sqrt3 * cos30 * unit)"
  "finite_val 5 (sqrt 3 * (1 / 2) * 12) (sqrt3 * sin30 * unit)"
  by (rule finite_valI, (rule finite_val_rules | (simp; fail))+)+

lemma exact_float64: "exact_at_zero float64_arith"
proof -
  have "float64_of_int 0 / rad = Fin 0"
    using pi_gt_zero by (simp add: float64_of_int_def rad_val f_ops)
  moreover have "Fin 0 * unit = Fin 0"
    by (simp add: unit_def f_ops)
  moreover note finite_val_exact[OF finite_val_0] footprint_vals[THEN finite_val_exact]
  ultimately show ?thesis
    unfolding exact_at_zero_def Let_def on_float64
    by (simp add: float64_arith_def) (simp add: f_ops)
qed

lemma Kite_xy_on_identity:
  assumes "exact_at_zero A"
  shows "Kite_xy_on A (a_lit A 0, a_lit A 0) 0 (a_lit A 0) False = footprint_on A"
  using assms
  by (simp add: exact_at_zero_def Kite_xy_on_def footprint_on_def Let_def)

lemma Kite_rot0:
  "Kite (Fin 0, Fin 0) 0 (Fin 0) False
   = Inr (Box (Quad (Point (Fin 0 * unit) (Fin 0 * unit) (Fin 0))
                    (Point (Fin 0 * unit) (sqrt3 * unit) (Fin 0))
                    (Point (Fin 1 * unit) (sqrt3 * unit) (Fin 0))
                    (Point (sqrt3 * cos30 * unit) (sqrt3 * sin30 * unit) (Fin 0)))
              (Quad (Point (Fin 0 * unit) (Fin 0 * unit) (Fin 0.2 * unit))
                    (Point (sqrt3 * cos30 * unit) (sqrt3 * sin30 * unit) (Fin 0.2 * unit))
                    (Point (Fin 1 * unit) (sqrt3 * unit) (Fin 0.2 * unit))
                    (Point (Fin 0 * unit) (sqrt3 * unit) (Fin 0.2 * unit))))"
proof -
  have k: "kite_k 0 \<noteq> 0" "2 / 10 + (0::real) \<noteq> 0" by (simp_all add: kite_k_def)
  have b: "\<bar>0::real\<bar> \<le> 2 ^ 10" "\<bar>0::int\<bar> \<le> 2 ^ 63" by simp_all
  have "Kite (Fin 0, Fin 0) 0 (Fin 0) False = Inr (kite_prism 0 0 0 0 False)"
    by (rule Kite_fin_normals(1)[OF b(1) b(1) b(1) b(2) k])
  moreover have "Fin 0 * unit = Fin 0" "Fin 0.2 * unit = Fin (2 / 10 * 12)"
    by (simp_all add: unit_def f_ops)
  moreover have "sqrt3 * unit = Fin (sqrt 3 * 12)" "Fin 1 * unit = Fin (1 * 12)"
    "sqrt3 * cos30 * unit = Fin (sqrt 3 * (sqrt 3 / 2) * 12)"
    "sqrt3 * sin30 * unit = Fin (sqrt 3 * (1 / 2) * 12)"
    using footprint_vals by (simp_all add: finite_val_def)
  ultimately show ?thesis
    by (simp add: kite_prism_def prism_def kite_x_def kite_y_def kite_k_def kite_ox_def kite_oy_def)
qed

text \<open>
  C5: with rotation 0, inset 0, position \<open>(0, 0)\<close> and no reflection, the eight
  coordinates that \<open>Kite\<close> computes are exactly those of the footprint \<open>(0, 0)\<close>,
  \<open>(0, sqrt3)\<close>, \<open>(1, sqrt3)\<close>, \<open>(sqrt3 * cos30, sqrt3 * sin30)\<close>, each multiplied by the
  unit 12: in every arithmetic with the laws of \<open>exact_at_zero\<close>, however it rounds, the
  steps after the scaling change nothing. The computation over the arithmetic of the model
  is \<open>Kite_xy\<close>; in this arithmetic \<open>NewBox\<close> accepts the quads, and \<open>Kite\<close> returns a box
  whose bottom quad has these vertices at \<open>Z = 0\<close>.
\<close>

theorem Kite_identity_footprint:
  assumes "exact_at_zero A"
  shows "Kite_xy_on A (a_lit A 0, a_lit A 0) 0 (a_lit A 0) False = footprint_on A
     \<and> unit_on A = a_lit A 12
     \<and> Kite_xy loc r inset rf = Kite_xy_on float64_arith loc r inset rf
     \<and> footprint_on float64_arith =
         (Fin 0 * unit, Fin 0 * unit, Fin 0 * unit, sqrt3 * unit, Fin 1 * unit, sqrt3 * unit,
          sqrt3 * cos30 * unit, sqrt3 * sin30 * unit)
     \<and> map_sum id b0 (Kite (Fin 0, Fin 0) 0 (Fin 0) False)
         = Inr (Quad (Point (Fin 0 * unit) (Fin 0 * unit) (Fin 0))
                     (Point (Fin 0 * unit) (sqrt3 * unit) (Fin 0))
                     (Point (Fin 1 * unit) (sqrt3 * unit) (Fin 0))
                     (Point (sqrt3 * cos30 * unit) (sqrt3 * sin30 * unit) (Fin 0)))"
  using Kite_xy_on_identity[OF assms] footprint_float64
  by (simp add: Kite_rot0 Kite_xy_on_float64 unit_on_def)

theorem Kite_identity_footprint_witness:
  "exact_at_zero float64_arith
   \<and> Kite_xy (Fin 0, Fin 0) 0 (Fin 0) False = footprint_on float64_arith
   \<and> map_sum id b0 (Kite (Fin 0, Fin 0) 0 (Fin 0) False)
         = Inr (Quad (Point (Fin 0 * unit) (Fin 0 * unit) (Fin 0))
                     (Point (Fin 0 * unit) (sqrt3 * unit) (Fin 0))
                     (Point (Fin 1 * unit) (sqrt3 * unit) (Fin 0))
                     (Point (sqrt3 * cos30 * unit) (sqrt3 * sin30 * unit) (Fin 0)))"
proof -
  have "a_lit float64_arith 0 = Fin 0" by (simp add: float64_arith_def)
  then show ?thesis
    using Kite_identity_footprint[OF exact_float64, of "(Fin 0, Fin 0)" 0 "Fin 0" False]
      exact_float64
    by simp
qed


section \<open>The two facets of a concave quad\<close>

text \<open>
  \<open>Quad.Facets\<close> always splits along the diagonal from vertex 2 to vertex 0. For the
  arrowhead, whose four vertices lie in one plane and follow each other counter-clockwise
  around it, that diagonal runs outside: the normals of the two facets are \<open>(0, 0, -1)\<close>
  and \<open>(0, 0, 1)\<close>, opposite to each other. The coordinates are small integers, on which
  the arithmetic of \<open>float64\<close> does not round.
\<close>

lemma arrow_normals:
  "map Facet_Normal (Quad_Facets arrow_quad)
   = [Point (Fin 0) (Fin 0) (Fin (- 1)), Point (Fin 0) (Fin 0) (Fin 1)]"
  by (simp add: Quad_Facets_def arrow_quad_def normal_horizontal)


section \<open>The output of a run\<close>

lemma is_digit_digit_char: "is_digit (digit_char d)"
  unfolding is_digit_def digit_char_def by (rule nth_mem) simp

lemma decimal_digits: "list_all is_digit (decimal n) \<and> 1 \<le> length (decimal n) \<and> (10 \<le> n \<longrightarrow> 2 \<le> length (decimal n))"
proof (induction n rule: decimal.induct)
  case (1 n)
  show ?case
  proof (cases "n < 10")
    case True
    then show ?thesis by (simp add: is_digit_digit_char)
  next
    case False
    with 1 show ?thesis by (subst (1 2 3) decimal.simps) (simp add: is_digit_digit_char)
  qed
qed

text \<open>The mantissa that \<open>sci_parts\<close> gives has exactly seven digits: its first digit is not 0.\<close>

lemma round_half_even_bounds: "\<lfloor>r\<rfloor> \<le> round_half_even r \<and> round_half_even r \<le> \<lfloor>r\<rfloor> + 1"
  by (simp add: round_half_even_def Let_def)

lemma sci_parts_range:
  assumes "x \<noteq> 0"
  shows "10 ^ 6 \<le> fst (sci_parts x) \<and> fst (sci_parts x) < 10 ^ 7"
proof -
  define a where "a = \<bar>x\<bar>"
  define e where "e = \<lfloor>log 10 a\<rfloor>"
  define y where "y = a / 10 powr (of_int e - 6)"
  have a: "0 < a" using assms by (simp add: a_def)
  have "of_int e \<le> log 10 a" "log 10 a < of_int e + 1"
    unfolding e_def by linarith+
  then have lo: "10 powr of_int e \<le> a" and hi: "a < 10 powr (of_int e + 1)"
    using a by (simp_all add: le_log_iff log_less_iff)
  have y: "y = a * 10 powr (6 - of_int e)"
    unfolding y_def by (simp add: powr_diff divide_simps)
  have "10 powr of_int e * 10 powr (6 - of_int e) \<le> y"
    unfolding y using lo by (intro mult_right_mono) simp_all
  then have ylo: "10 ^ 6 \<le> y"
    by (simp add: powr_add[symmetric])
  have "y < 10 powr (of_int e + 1) * 10 powr (6 - of_int e)"
    unfolding y using hi by (intro mult_strict_right_mono) simp_all
  then have yhi: "y < 10 ^ 7"
    by (simp add: powr_add[symmetric])
  have f: "10 ^ 6 \<le> \<lfloor>y\<rfloor>" "\<lfloor>y\<rfloor> < 10 ^ 7"
    using ylo yhi by (simp_all add: le_floor_iff floor_less_iff)
  define m where "m = round_half_even y"
  have m: "10 ^ 6 \<le> m" "m \<le> 10 ^ 7"
    using round_half_even_bounds[of y] f unfolding m_def by linarith+
  have "sci_parts x = (if m = 10 ^ 7 then (10 ^ 6, e + 1) else (nat m, e))"
    by (simp add: sci_parts_def Let_def m_def y_def e_def a_def)
  then show ?thesis using m by (auto simp: nat_le_iff)
qed

text \<open>Three numbers as \<open>%.6e\<close> prints them.\<close>

lemma floor_log10:
  assumes "10 powr of_int e \<le> a" and "a < 10 powr (of_int e + 1)" and "0 < a"
  shows "\<lfloor>log 10 a\<rfloor> = e"
proof -
  have "of_int e \<le> log 10 a" using assms by (simp add: le_log_iff)
  moreover have "log 10 a < of_int e + 1" using assms by (simp add: log_less_iff)
  ultimately show ?thesis by linarith
qed

lemma round_half_even_int: "round_half_even (of_int n) = n"
  by (simp add: round_half_even_def)

lemma sci_parts_18: "sci_parts 18 = (1800000, 1)"
proof -
  have e: "\<lfloor>log 10 \<bar>18::real\<bar>\<rfloor> = 1"
    by (rule floor_log10) simp_all
  have "\<bar>18::real\<bar> / 10 powr (of_int 1 - 6) = of_int 1800000"
    by (simp add: powr_minus_divide)
  then show ?thesis
    unfolding sci_parts_def e Let_def by (simp only: round_half_even_int) simp
qed

lemma fmt_e6_18: "fmt_e6 (Fin 18) = ''1.800000e+01''"
  by (simp add: fmt_e6.simps sci_parts_18 digit_char_def decimal.simps)

lemma sci_parts_1: "sci_parts (- 1) = (1000000, 0)"
proof -
  have e: "\<lfloor>log 10 \<bar>- 1::real\<bar>\<rfloor> = 0"
    by (rule floor_log10) simp_all
  have "\<bar>- 1::real\<bar> / 10 powr (of_int 0 - 6) = of_int 1000000"
    by (simp add: powr_minus_divide)
  then show ?thesis
    unfolding sci_parts_def e Let_def by (simp only: round_half_even_int) simp
qed

lemma fmt_e6_minus_1: "fmt_e6 (Fin (- 1)) = ''-1.000000e+00''"
  by (simp add: fmt_e6.simps sci_parts_1 digit_char_def decimal.simps)

lemma fmt_e6_0: "fmt_e6 (Fin 0) = ''0.000000e+00''"
  by (simp add: fmt_e6.simps)

lemma sci6_parts:
  assumes "sg = [] \<or> sg = ''-''" and "is_digit d" and "length ds = 6" and "list_all is_digit ds"
    and "es = ''+'' \<or> es = ''-''" and "2 \<le> length ed" and "list_all is_digit ed"
  shows "sci6 (sg @ [d] @ ''.'' @ ds @ ''e'' @ es @ ed)"
  unfolding sci6_def using assms by blast

lemma sci6_fmt_e6: "sci6 (fmt_e6 (Fin x))"
proof (cases "x = 0")
  case True
  have "sci6 ([] @ [CHR ''0''] @ ''.'' @ ''000000'' @ ''e'' @ ''+'' @ ''00'')"
    by (rule sci6_parts) (simp_all add: is_digit_def)
  with True show ?thesis by simp
next
  case False
  obtain m e where me: "sci_parts x = (m, e)" by (cases "sci_parts x")
  define ed where "ed = (if \<bar>e\<bar> < 10 then ''0'' else []) @ decimal (nat \<bar>e\<bar>)"
  define sg where "sg = (if x < 0 then ''-'' else [])"
  define es where "es = (if e < 0 then ''-'' else ''+'')"
  define ds where "ds = map (\<lambda>k. digit_char (m div 10 ^ k)) [5, 4, 3, 2, 1, 0]"
  have ed: "2 \<le> length ed" "list_all is_digit ed"
    using decimal_digits[of "nat \<bar>e\<bar>"] by (auto simp: ed_def is_digit_def)
  have eq: "fmt_e6 (Fin x) = sg @ [digit_char (m div 10 ^ 6)] @ ''.'' @ ds @ ''e'' @ es @ ed"
    using False by (simp add: me ed_def sg_def es_def ds_def del: decimal.simps)
  have "sci6 (sg @ [digit_char (m div 10 ^ 6)] @ ''.'' @ ds @ ''e'' @ es @ ed)"
    by (rule sci6_parts) (simp_all add: sg_def es_def ds_def ed is_digit_digit_char)
  then show ?thesis by (simp only: eq)
qed

declare decimal.simps [simp del]

declare fmt_e6.simps [simp del]

lemma is_Fin_PointE:
  assumes "is_Fin_Point p"
  obtains a c e where "p = Point (Fin a) (Fin c) (Fin e)"
  using assms by (cases p) (auto simp: is_Fin_Point_def dest!: is_Fin_val)

lemma point_text_String:
  assumes "is_Fin_Point p"
  shows "point_text (Point_String p)"
proof -
  from assms obtain a c e where p: "p = Point (Fin a) (Fin c) (Fin e)"
    by (rule is_Fin_PointE)
  show ?thesis
    unfolding point_text_def Point_String_def p
    by (rule exI[of _ "fmt_e6 (Fin a)"], rule exI[of _ "fmt_e6 (Fin c)"],
        rule exI[of _ "fmt_e6 (Fin e)"]) (simp add: sci6_fmt_e6)
qed

lemma facet_record_String: "facet_finite f \<Longrightarrow> facet_record (Facet_String f)"
  unfolding facet_record_def facet_finite_def
  by (rule exI[of _ "Point_String (Facet_Normal f)"], rule exI[of _ "Point_String (f0 f)"],
      rule exI[of _ "Point_String (f1 f)"], rule exI[of _ "Point_String (f2 f)"])
     (simp add: Facet_String_def point_text_String)

lemma unit_vector_finite: "unit_vector p \<Longrightarrow> is_Fin_Point p"
  by (simp add: unit_vector_def is_Fin_Point_def)

lemma Kite_fin_facets:
  assumes bnd: "\<bar>lx\<bar> \<le> 2 ^ 10" "\<bar>ly\<bar> \<le> 2 ^ 10" "\<bar>i\<bar> \<le> 2 ^ 10" "\<bar>r\<bar> \<le> 2 ^ 63"
    and k: "kite_k i \<noteq> 0" and h: "2 / 10 + i \<noteq> 0"
  shows "\<exists>b. Kite (Fin lx, Fin ly) r (Fin i) rf = Inr b
     \<and> length (Box_Facets b) = 12 \<and> list_all facet_finite (Box_Facets b)"
proof -
  define b where "b = kite_prism lx ly r i rf"
  note n = Kite_fin_normals[OF bnd k h, of rf, folded b_def]
  have "list_all (\<lambda>f. is_Fin_Point (f0 f) \<and> is_Fin_Point (f1 f) \<and> is_Fin_Point (f2 f)) (Box_Facets b)"
    unfolding b_def kite_prism_def using prism_points_finite by simp
  with n(2) have "list_all facet_finite (Box_Facets b)"
    by (auto simp: list_all_iff facet_finite_def unit_vector_finite)
  moreover have "length (Box_Facets b) = 12"
    by (simp add: Box_Facets_def Quad_Facets_def Let_def)
  ultimately show ?thesis using n(1) by blast
qed

lemma render_ok:
  assumes "kite_ok k" and "\<bar>i\<bar> \<le> 2 ^ 10" and "kite_k i \<noteq> 0" and "2 / 10 + i \<noteq> 0"
  shows "\<exists>s. render name k (Fin i) rf = Inr s \<and> solid_block name s"
proof -
  from assms(1) obtain lx ly where p: "pos k = (Fin lx, Fin ly)"
    and bnd: "\<bar>lx\<bar> \<le> 2 ^ 10" "\<bar>ly\<bar> \<le> 2 ^ 10" "\<bar>rot k\<bar> \<le> 2 ^ 63"
    by (cases "pos k") (auto simp: kite_ok_def dest!: is_Fin_val)
  from Kite_fin_facets[OF bnd(1,2) assms(2) bnd(3) assms(3,4), of rf] obtain b where
    b: "Kite (pos k) (rot k) (Fin i) rf = Inr b" and l: "length (Box_Facets b) = 12"
    and f: "list_all facet_finite (Box_Facets b)"
    unfolding p by blast
  have "solid_block name (''solid '' @ name @ nl @ nl
               @ concat (map (\<lambda>f. Facet_String f @ nl) (Box_Facets b)))"
    unfolding solid_block_def
    by (rule exI[of _ "map Facet_String (Box_Facets b)"])
       (use l f in \<open>auto simp: list_all_iff facet_record_String comp_def\<close>)
  then show ?thesis by (simp add: render_def b)
qed

lemma main_loop_ok:
  assumes "list_all kite_ok ks"
  shows "\<exists>blocks. main_loop rf i ks = (map (\<lambda>s. s @ nl) blocks, None)
     \<and> map Inr blocks = concat (map (\<lambda>(j, k). [render (kite_name j) k (Fin 0) rf,
                                                  render (kite_inset_name j) k const_inset rf])
                                    (enumerate i ks))
     \<and> list_all2 solid_block
          (concat (map (\<lambda>(j, k). [kite_name j, kite_inset_name j]) (enumerate i ks))) blocks"
  using assms
proof (induction ks arbitrary: i)
  case Nil
  then show ?case by simp
next
  case (Cons k ks)
  then have k: "kite_ok k" and ks: "list_all kite_ok ks" by simp_all
  have k0: "\<bar>0::real\<bar> \<le> 2 ^ 10" "kite_k 0 \<noteq> 0" "2 / 10 + (0::real) \<noteq> 0"
    by (simp_all add: kite_k_def)
  have k3: "\<bar>0.03::real\<bar> \<le> 2 ^ 10" "kite_k 0.03 \<noteq> 0" "2 / 10 + (0.03::real) \<noteq> 0"
    by (simp_all add: kite_k_def)
  from render_ok[OF k k0, of "kite_name i" rf] obtain s1 where
    s1: "render (kite_name i) k (Fin 0) rf = Inr s1" "solid_block (kite_name i) s1"
    by blast
  from render_ok[OF k k3, of "kite_inset_name i" rf] obtain s2 where
    s2: "render (kite_inset_name i) k const_inset rf = Inr s2"
      "solid_block (kite_inset_name i) s2"
    by (auto simp: const_inset_def)
  from Cons.IH[OF ks, of "Suc i"] obtain blocks where
    b: "main_loop rf (Suc i) ks = (map (\<lambda>s. s @ nl) blocks, None)"
    "map Inr blocks = concat (map (\<lambda>(j, k). [render (kite_name j) k (Fin 0) rf,
                                                  render (kite_inset_name j) k const_inset rf])
                                    (enumerate (Suc i) ks))"
    "list_all2 solid_block
          (concat (map (\<lambda>(j, k). [kite_name j, kite_inset_name j]) (enumerate (Suc i) ks))) blocks"
    by blast
  show ?case
    by (rule exI[of _ "s1 # s2 # blocks"]) (simp add: s1 s2 b)
qed

lemma kites_ok: "list_all kite_ok kites"
proof -
  have "\<bar>2 * sqrt 3\<bar> \<le> 2 ^ 10" "\<bar>sqrt 3\<bar> \<le> 2 ^ 10"
    using sqrt3_le2 by simp_all
  moreover from this have "Fin (- 2) * sqrt3 = Fin (- (2 * sqrt 3))"
    by (simp add: sqrt3_val f_ops)
  moreover have "- sqrt3 = Fin (- sqrt 3)"
    by (simp add: sqrt3_val f_ops)
  ultimately show ?thesis
    by (simp add: kites_def kite_ok_def)
qed

lemma kite_names:
  "map kite_name [0, 1, 2, 3, 4, 5, 6, 7]
     = [''kite0'', ''kite1'', ''kite2'', ''kite3'', ''kite4'', ''kite5'', ''kite6'', ''kite7'']"
  "map kite_inset_name [0, 1, 2, 3, 4, 5, 6, 7]
     = [''kite-inset0'', ''kite-inset1'', ''kite-inset2'', ''kite-inset3'', ''kite-inset4'',
        ''kite-inset5'', ''kite-inset6'', ''kite-inset7'']"
  by (simp_all add: kite_name_def kite_inset_name_def decimal.simps digit_char_def)

lemma enumerate_kites:
  "enumerate 0 kites = map (\<lambda>i. (i, kites ! i)) [0, 1, 2, 3, 4, 5, 6, 7]"
  by (simp add: kites_def enumerate_eq_zip upt_rec)

text \<open>
  C9: a run of the generator, with or without the flag \<open>-r\<close>, ends without \<open>log.Fatal\<close>
  and writes exactly 16 blocks: for each of the 8 placements, in the order of the table,
  what \<open>render\<close> returns for the inset 0 under the name \<open>kite\<close>\<open>i\<close>, then what it returns
  for the inset 0.03 under the name \<open>kite-inset\<close>\<open>i\<close>. Each block is a solid block: the
  header with the name, then exactly 12 facet records, in which every coordinate is in
  scientific notation with six digits after the point.
\<close>

theorem main_sixteen_solids:
  "\<exists>blocks. main rf = (map (\<lambda>s. s @ nl) blocks, None)
     \<and> length blocks = 16
     \<and> map Inr blocks =
         concat (map (\<lambda>i. [render (kite_name i) (kites ! i) (Fin 0) rf,
                            render (kite_inset_name i) (kites ! i) (Fin 0.03) rf])
                   [0, 1, 2, 3, 4, 5, 6, 7])
     \<and> list_all2 solid_block
         [''kite0'', ''kite-inset0'', ''kite1'', ''kite-inset1'', ''kite2'', ''kite-inset2'',
          ''kite3'', ''kite-inset3'', ''kite4'', ''kite-inset4'', ''kite5'', ''kite-inset5'',
          ''kite6'', ''kite-inset6'', ''kite7'', ''kite-inset7'']
         blocks"
proof -
  from main_loop_ok[OF kites_ok, of rf 0] obtain blocks where
    m: "main rf = (map (\<lambda>s. s @ nl) blocks, None)"
    and r: "map Inr blocks = concat (map (\<lambda>(j, k). [render (kite_name j) k (Fin 0) rf,
                                                  render (kite_inset_name j) k const_inset rf])
                                    (enumerate 0 kites))"
    and b: "list_all2 solid_block
          (concat (map (\<lambda>(j, k). [kite_name j, kite_inset_name j]) (enumerate 0 kites))) blocks"
    unfolding main_def by blast
  have r': "map Inr blocks =
         concat (map (\<lambda>i. [render (kite_name i) (kites ! i) (Fin 0) rf,
                            render (kite_inset_name i) (kites ! i) (Fin 0.03) rf])
                   [0, 1, 2, 3, 4, 5, 6, 7])"
    using r unfolding enumerate_kites by (simp add: const_inset_def comp_def)
  have n: "concat (map (\<lambda>(j, k). [kite_name j, kite_inset_name j]) (enumerate 0 kites))
      = [''kite0'', ''kite-inset0'', ''kite1'', ''kite-inset1'', ''kite2'', ''kite-inset2'',
          ''kite3'', ''kite-inset3'', ''kite4'', ''kite-inset4'', ''kite5'', ''kite-inset5'',
          ''kite6'', ''kite-inset6'', ''kite7'', ''kite-inset7'']"
    using kite_names unfolding enumerate_kites by (simp add: comp_def)
  have l: "length blocks = 16"
    using list_all2_lengthD[OF b] unfolding n by simp
  show ?thesis
    using m l r' b unfolding n by blast
qed

end
